theory Spec2Isabelle
  imports Main "HOL-Library.Word"
begin

section \<open>JavaScript values used by the execution client\<close>

text \<open>
  A JavaScript string is a sequence of UTF-16 code units. The literals of the source are
  ASCII; \<open>js\<close> turns an ASCII literal into such a sequence.
\<close>

type_synonym code_unit = "16 word"
type_synonym jsstring = "code_unit list"

definition js :: "string \<Rightarrow> jsstring" where
  "js s = map (\<lambda>c. of_nat (of_char c)) s"

text \<open>
  The values thrown in \<open>judge0.ts\<close> and \<open>templates.ts\<close>. Every one of them is an instance
  of \<open>Error\<close>. \<open>Error m\<close> is \<open>new Error(m)\<close> of the source; the others are raised by the
  platform: \<open>TypeError\<close> by a rejected \<open>fetch\<close>, \<open>SyntaxError\<close> by \<open>JSON.parse\<close>,
  \<open>URIError\<close> by \<open>encodeURIComponent\<close> and \<open>decodeURIComponent\<close>, and
  \<open>InvalidCharacterError\<close> (a \<open>DOMException\<close>) by \<open>btoa\<close> and \<open>atob\<close>.
  \<open>ToPrimitiveError\<close> is the \<open>TypeError\<close> that the conversion of an object to a string
  raises when the object has no usable \<open>toString\<close>. The text of a message the platform
  writes is not fixed by any standard: \<open>TypeError\<close> and \<open>SyntaxError\<close> carry the text they
  were raised with, and the text of the other three is read from the platform
  (\<open>platform_message\<close> below).
\<close>

datatype codec = Btoa | Atob

datatype js_exception =
    Error jsstring
  | TypeError jsstring
  | SyntaxError jsstring
  | URIError
  | InvalidCharacterError codec
  | ToPrimitiveError

text \<open>\<open>String.prototype.includes\<close>: the argument occurs as a contiguous run of code units.\<close>

fun starts_with :: "'a list \<Rightarrow> 'a list \<Rightarrow> bool" where
  "starts_with s [] = True"
| "starts_with [] (p # ps) = False"
| "starts_with (c # s) (p # ps) = (c = p \<and> starts_with s ps)"

fun string_includes :: "'a list \<Rightarrow> 'a list \<Rightarrow> bool" where
  "string_includes [] sub = starts_with [] sub"
| "string_includes (c # s) sub = (starts_with (c # s) sub \<or> string_includes s sub)"

text \<open>
  \<open>Number.prototype.toString\<close> on an integer: decimal digits, with a minus sign. (The
  numbers of the model are integers. A JavaScript number holds every integer up to
  \<open>2^53\<close> exactly and prints it so; no status code, HTTP status or memory figure in
  kilobytes reaches that.)
\<close>

definition digit_char :: "nat \<Rightarrow> code_unit" where
  "digit_char d = js ''0123456789'' ! d"

function nat_digits :: "nat \<Rightarrow> jsstring" where
  "nat_digits n = (if n < 10 then [digit_char n] else nat_digits (n div 10) @ [digit_char (n mod 10)])"
  by pat_completeness auto
termination
  by (relation "measure id") auto

definition number_to_string :: "int \<Rightarrow> jsstring" where
  "number_to_string i = (if i < 0 then js ''-'' @ nat_digits (nat (- i)) else nat_digits (nat i))"

section \<open>The platform's codecs\<close>

text \<open>
  \<open>encodeBase64\<close> and \<open>decodeBase64\<close> are compositions of six built-in functions. Each is
  modelled from its standard: \<open>encodeURIComponent\<close>, \<open>decodeURIComponent\<close>, \<open>escape\<close> and
  \<open>unescape\<close> from ECMA-262 (\<open>Encode\<close>, \<open>Decode\<close>, B.2.1.1, B.2.1.2), \<open>btoa\<close> and \<open>atob\<close>
  from the HTML standard (forgiving-base64 encode and decode of the Infra standard).
\<close>

definition percent :: code_unit where
  "percent = 0x25"

definition hex_digit :: "nat \<Rightarrow> code_unit" where
  "hex_digit n = js ''0123456789ABCDEF'' ! n"

definition hex2 :: "nat \<Rightarrow> jsstring" where
  "hex2 n = [hex_digit (n div 16), hex_digit (n mod 16)]"

definition hex4 :: "nat \<Rightarrow> jsstring" where
  "hex4 n = hex2 (n div 256) @ hex2 (n mod 256)"

definition hex_value :: "code_unit \<Rightarrow> nat option" where
  "hex_value c =
     (let n = unat c in
      if 48 \<le> n \<and> n \<le> 57 then Some (n - 48)
      else if 65 \<le> n \<and> n \<le> 70 then Some (n - 55)
      else if 97 \<le> n \<and> n \<le> 102 then Some (n - 87)
      else None)"

definition is_hex :: "code_unit \<Rightarrow> bool" where
  "is_hex c = (hex_value c \<noteq> None)"

definition hex_number :: "jsstring \<Rightarrow> nat" where
  "hex_number ds = foldl (\<lambda>a d. a * 16 + the (hex_value d)) 0 ds"

subsection \<open>UTF-16 and UTF-8\<close>

definition is_lead_surrogate :: "code_unit \<Rightarrow> bool" where
  "is_lead_surrogate c = (0xD800 \<le> unat c \<and> unat c \<le> 0xDBFF)"

definition is_trail_surrogate :: "code_unit \<Rightarrow> bool" where
  "is_trail_surrogate c = (0xDC00 \<le> unat c \<and> unat c \<le> 0xDFFF)"

definition surrogate_pair :: "code_unit \<Rightarrow> code_unit \<Rightarrow> nat" where
  "surrogate_pair l t = 0x10000 + (unat l - 0xD800) * 0x400 + (unat t - 0xDC00)"

definition utf16_encode :: "nat \<Rightarrow> jsstring" where
  "utf16_encode v =
     (if v \<le> 0xFFFF then [of_nat v]
      else [of_nat (0xD800 + (v - 0x10000) div 0x400), of_nat (0xDC00 + (v - 0x10000) mod 0x400)])"

definition utf8_encode :: "nat \<Rightarrow> nat list" where
  "utf8_encode v =
     (if v < 0x80 then [v]
      else if v < 0x800 then [0xC0 + v div 64, 0x80 + v mod 64]
      else if v < 0x10000 then [0xE0 + v div 4096, 0x80 + v div 64 mod 64, 0x80 + v mod 64]
      else [0xF0 + v div 262144, 0x80 + v div 4096 mod 64, 0x80 + v div 64 mod 64, 0x80 + v mod 64])"

definition is_continuation :: "nat \<Rightarrow> bool" where
  "is_continuation b = (0x80 \<le> b \<and> b \<le> 0xBF)"

definition scalar_in :: "nat \<Rightarrow> nat \<Rightarrow> nat option" where
  "scalar_in lo v =
     (if lo \<le> v \<and> v \<le> 0x10FFFF \<and> \<not> (0xD800 \<le> v \<and> v \<le> 0xDFFF) then Some v else None)"

text \<open>
  The code point of a well-formed UTF-8 byte sequence, \<open>None\<close> for any other sequence:
  continuation bytes in \<open>80..BF\<close>, no overlong form, no surrogate, nothing above
  \<open>10FFFF\<close>.
\<close>

definition utf8_decode :: "nat list \<Rightarrow> nat option" where
  "utf8_decode octets =
     (case octets of
        [b0, b1] \<Rightarrow>
          if is_continuation b1 then scalar_in 0x80 ((b0 - 0xC0) * 64 + (b1 - 0x80)) else None
      | [b0, b1, b2] \<Rightarrow>
          if is_continuation b1 \<and> is_continuation b2
          then scalar_in 0x800 ((b0 - 0xE0) * 4096 + (b1 - 0x80) * 64 + (b2 - 0x80)) else None
      | [b0, b1, b2, b3] \<Rightarrow>
          if is_continuation b1 \<and> is_continuation b2 \<and> is_continuation b3
          then scalar_in 0x10000
                 ((b0 - 0xF0) * 262144 + (b1 - 0x80) * 4096 + (b2 - 0x80) * 64 + (b3 - 0x80))
          else None
      | _ \<Rightarrow> None)"

subsection \<open>encodeURIComponent and unescape\<close>

definition uri_unescaped :: "code_unit \<Rightarrow> bool" where
  "uri_unescaped c =
     (c \<in> set (js ''ABCDEFGHIJKLMNOPQRSTUVWXYZabcdefghijklmnopqrstuvwxyz0123456789-_.!~*'()''))"

definition percent_octets :: "nat list \<Rightarrow> jsstring" where
  "percent_octets octets = concat (map (\<lambda>b. percent # hex2 b) octets)"

fun encodeURIComponent :: "jsstring \<Rightarrow> js_exception + jsstring" where
  "encodeURIComponent [] = Inr []"
| "encodeURIComponent (c # rest) =
     (if uri_unescaped c then map_sum id ((#) c) (encodeURIComponent rest)
      else if is_lead_surrogate c then
        (case rest of
           [] \<Rightarrow> Inl URIError
         | d # rest' \<Rightarrow>
             if is_trail_surrogate d
             then map_sum id ((@) (percent_octets (utf8_encode (surrogate_pair c d))))
                    (encodeURIComponent rest')
             else Inl URIError)
      else if is_trail_surrogate c then Inl URIError
      else map_sum id ((@) (percent_octets (utf8_encode (unat c)))) (encodeURIComponent rest))"

function unescape :: "jsstring \<Rightarrow> jsstring" where
  "unescape [] = []"
| "unescape (c # rest) =
     (if c = percent \<and> 5 \<le> length rest \<and> hd rest = 0x75 \<and> list_all is_hex (take 4 (tl rest))
      then of_nat (hex_number (take 4 (tl rest))) # unescape (drop 5 rest)
      else if c = percent \<and> 2 \<le> length rest \<and> list_all is_hex (take 2 rest)
      then of_nat (hex_number (take 2 rest)) # unescape (drop 2 rest)
      else c # unescape rest)"
  by pat_completeness auto
termination
  by (relation "measure length") auto

subsection \<open>btoa and atob\<close>

definition base64_alphabet :: jsstring where
  "base64_alphabet = js ''ABCDEFGHIJKLMNOPQRSTUVWXYZabcdefghijklmnopqrstuvwxyz0123456789+/''"

definition base64_char :: "nat \<Rightarrow> code_unit" where
  "base64_char n = base64_alphabet ! n"

definition pad :: code_unit where
  "pad = 0x3D"

fun base64_encode :: "nat list \<Rightarrow> jsstring" where
  "base64_encode [] = []"
| "base64_encode [a] = [base64_char (a div 4), base64_char (a mod 4 * 16), pad, pad]"
| "base64_encode [a, b] =
     [base64_char (a div 4), base64_char (a mod 4 * 16 + b div 16), base64_char (b mod 16 * 4), pad]"
| "base64_encode (a # b # c # rest) =
     [base64_char (a div 4), base64_char (a mod 4 * 16 + b div 16),
      base64_char (b mod 16 * 4 + c div 64), base64_char (c mod 64)] @ base64_encode rest"

definition btoa :: "jsstring \<Rightarrow> js_exception + jsstring" where
  "btoa s =
     (if list_ex (\<lambda>c. 0xFF < unat c) s then Inl (InvalidCharacterError Btoa)
      else Inr (base64_encode (map unat s)))"

definition ascii_whitespace :: "code_unit \<Rightarrow> bool" where
  "ascii_whitespace c = (c \<in> set [0x09, 0x0A, 0x0C, 0x0D, 0x20])"

definition base64_value :: "code_unit \<Rightarrow> nat option" where
  "base64_value c =
     (let n = unat c in
      if 65 \<le> n \<and> n \<le> 90 then Some (n - 65)
      else if 97 \<le> n \<and> n \<le> 122 then Some (n - 71)
      else if 48 \<le> n \<and> n \<le> 57 then Some (n + 4)
      else if n = 43 then Some 62
      else if n = 47 then Some 63
      else None)"

definition strip_padding :: "jsstring \<Rightarrow> jsstring" where
  "strip_padding data =
     (if length data mod 4 = 0 \<and> data \<noteq> [] \<and> last data = pad
      then (if butlast data \<noteq> [] \<and> last (butlast data) = pad then butlast (butlast data)
            else butlast data)
      else data)"

fun base64_decode :: "nat list \<Rightarrow> nat list" where
  "base64_decode (a # b # c # d # rest) =
     [a * 4 + b div 16, b mod 16 * 16 + c div 4, c mod 4 * 64 + d] @ base64_decode rest"
| "base64_decode [a, b, c] = [a * 4 + b div 16, b mod 16 * 16 + c div 4]"
| "base64_decode [a, b] = [a * 4 + b div 16]"
| "base64_decode [a] = []"
| "base64_decode [] = []"

definition atob :: "jsstring \<Rightarrow> js_exception + jsstring" where
  "atob s =
     (let data = strip_padding (filter (\<lambda>c. \<not> ascii_whitespace c) s) in
      if length data mod 4 = 1 then Inl (InvalidCharacterError Atob)
      else if list_ex (\<lambda>c. base64_value c = None) data then Inl (InvalidCharacterError Atob)
      else Inr (map of_nat (base64_decode (map (\<lambda>c. the (base64_value c)) data))))"

subsection \<open>escape and decodeURIComponent\<close>

definition escape_unescaped :: "code_unit \<Rightarrow> bool" where
  "escape_unescaped c =
     (c \<in> set (js ''ABCDEFGHIJKLMNOPQRSTUVWXYZabcdefghijklmnopqrstuvwxyz0123456789@*_+-./''))"

definition escape_unit :: "code_unit \<Rightarrow> jsstring" where
  "escape_unit c =
     (if escape_unescaped c then [c]
      else if unat c < 256 then percent # hex2 (unat c)
      else percent # 0x75 # hex4 (unat c))"

definition escape :: "jsstring \<Rightarrow> jsstring" where
  "escape s = concat (map escape_unit s)"

definition parse_hex_octet :: "jsstring \<Rightarrow> nat option" where
  "parse_hex_octet s =
     (case s of
        h # l # _ \<Rightarrow>
          (case hex_value h of
             None \<Rightarrow> None
           | Some a \<Rightarrow> (case hex_value l of None \<Rightarrow> None | Some b \<Rightarrow> Some (a * 16 + b)))
      | _ \<Rightarrow> None)"

definition leading_ones :: "nat \<Rightarrow> nat" where
  "leading_ones b =
     (if b < 0x80 then 0 else if b < 0xC0 then 1 else if b < 0xE0 then 2
      else if b < 0xF0 then 3 else if b < 0xF8 then 4 else 5)"

fun continuation_octets :: "nat \<Rightarrow> jsstring \<Rightarrow> nat list option" where
  "continuation_octets 0 s = Some []"
| "continuation_octets (Suc n) [] = None"
| "continuation_octets (Suc n) (p # rest) =
     (if p = percent then
        (case parse_hex_octet rest of
           None \<Rightarrow> None
         | Some b \<Rightarrow> map_option ((#) b) (continuation_octets n (drop 2 rest)))
      else None)"

function decodeURIComponent :: "jsstring \<Rightarrow> js_exception + jsstring" where
  "decodeURIComponent [] = Inr []"
| "decodeURIComponent (c # rest) =
     (if c \<noteq> percent then map_sum id ((#) c) (decodeURIComponent rest)
      else
        (case parse_hex_octet rest of
           None \<Rightarrow> Inl URIError
         | Some b \<Rightarrow>
             if leading_ones b = 0
             then map_sum id ((#) (of_nat b)) (decodeURIComponent (drop 2 rest))
             else if leading_ones b = 1 \<or> 4 < leading_ones b then Inl URIError
             else
               (case continuation_octets (leading_ones b - 1) (drop 2 rest) of
                  None \<Rightarrow> Inl URIError
                | Some octets \<Rightarrow>
                    (case utf8_decode (b # octets) of
                       None \<Rightarrow> Inl URIError
                     | Some v \<Rightarrow>
                         map_sum id ((@) (utf16_encode v))
                           (decodeURIComponent (drop (2 + 3 * (leading_ones b - 1)) rest))))))"
  by pat_completeness auto
termination
  by (relation "measure length") auto

section \<open>Judge0Service: the transport codec\<close>

text \<open>
  \<^verbatim>\<open>try { return btoa(unescape(encodeURIComponent(str))) } catch (error) { return btoa(str) }\<close>
\<close>

definition encodeBase64 :: "jsstring \<Rightarrow> js_exception + jsstring" where
  "encodeBase64 str =
     (case (case encodeURIComponent str of Inl e \<Rightarrow> Inl e | Inr t \<Rightarrow> btoa (unescape t)) of
        Inl error \<Rightarrow> btoa str
      | Inr r \<Rightarrow> Inr r)"

text \<open>
  \<^verbatim>\<open>try { return decodeURIComponent(escape(atob(str))) } catch (error) { return atob(str) }\<close>
\<close>

definition decodeBase64 :: "jsstring \<Rightarrow> js_exception + jsstring" where
  "decodeBase64 str =
     (case (case atob str of Inl e \<Rightarrow> Inl e | Inr b \<Rightarrow> decodeURIComponent (escape b)) of
        Inl error \<Rightarrow> atob str
      | Inr r \<Rightarrow> Inr r)"

section \<open>Judge0Service: formatting a result\<close>

text \<open>
  \<open>ExecutionResult\<close> of \<open>judge0.ts\<close>. An optional field is an \<open>option\<close>: \<open>None\<close> is the
  field being absent (\<open>undefined\<close>, or the \<open>null\<close> the service sends). Numbers are
  integers.
\<close>

record Status =
  id' :: int
  description :: jsstring

record ExecutionResult =
  stdout :: "jsstring option"
  stderr :: "jsstring option"
  compile_output :: "jsstring option"
  status :: Status
  time :: "jsstring option"
  memory :: "int option"

text \<open>Truthiness of an optional string and of an optional number, as \<open>if (x)\<close> and \<open>x ||\<close> test it.\<close>

definition truthy_string :: "jsstring option \<Rightarrow> bool" where
  "truthy_string x = (case x of None \<Rightarrow> False | Some s \<Rightarrow> s \<noteq> [])"

definition truthy_number :: "int option \<Rightarrow> bool" where
  "truthy_number x = (case x of None \<Rightarrow> False | Some n \<Rightarrow> n \<noteq> 0)"

text \<open>
  \<^verbatim>\<open>if (result.f) { output += header + this.decodeBase64(result.f) }\<close>: the output is
  extended when the field is truthy, and the exception of \<open>decodeBase64\<close> leaves the
  function.
\<close>

definition append_decoded :: "jsstring \<Rightarrow> jsstring \<Rightarrow> jsstring option \<Rightarrow> js_exception + jsstring" where
  "append_decoded output header field =
     (if truthy_string field
      then (case decodeBase64 (the field) of Inl e \<Rightarrow> Inl e | Inr d \<Rightarrow> Inr (output @ header @ d))
      else Inr output)"

definition execution_info :: "ExecutionResult \<Rightarrow> jsstring" where
  "execution_info result =
     js ''\<newline>\<newline>--- Execution Info ---''
     @ js ''\<newline>Status: '' @ description (status result) @ js '' (''
       @ number_to_string (id' (status result)) @ js '')''
     @ js ''\<newline>Time: '' @ (if truthy_string (time result) then the (time result) else js ''N/A'')
       @ js ''s''
     @ js ''\<newline>Memory: ''
       @ (if truthy_number (memory result) then number_to_string (the (memory result)) else js ''N/A'')
       @ js '' KB''"

definition formatOutput :: "ExecutionResult \<Rightarrow> js_exception + jsstring" where
  "formatOutput result =
     (case
        (if id' (status result) = 3 then
           (if truthy_string (stdout result)
            then append_decoded [] (js ''Output:\<newline>'') (stdout result)
            else Inr (js ''Code executed successfully (no output)''))
         else if id' (status result) = 4 then
           append_decoded (js ''Wrong Answer\<newline>'') (js ''Output:\<newline>'') (stdout result)
         else if id' (status result) = 5 then Inr (js ''Time Limit Exceeded\<newline>'')
         else if id' (status result) = 6 then
           append_decoded (js ''Compilation Error:\<newline>'') [] (compile_output result)
         else if id' (status result) = 7 then
           append_decoded (js ''Runtime Error (Segmentation Fault)\<newline>'')
             (js ''Error Details:\<newline>'') (stderr result)
         else if id' (status result) = 8 then
           Inr (js ''Runtime Error (File Size Limit Exceeded)\<newline>'')
         else if id' (status result) = 9 then
           Inr (js ''Runtime Error (Floating Point Exception)\<newline>'')
         else if id' (status result) = 10 then Inr (js ''Runtime Error (Aborted)\<newline>'')
         else if id' (status result) = 11 then
           append_decoded (js ''Runtime Error (Non-zero Exit Code)\<newline>'')
             (js ''Error Details:\<newline>'') (stderr result)
         else if id' (status result) = 12 then
           append_decoded (js ''Runtime Error\<newline>'') (js ''Error Details:\<newline>'') (stderr result)
         else if id' (status result) = 13 then
           Inr (js ''Internal Error: Please try again later\<newline>'')
         else if id' (status result) = 14 then Inr (js ''Execution Format Error\<newline>'')
         else
           (case append_decoded
                   (js ''Unknown Status ('' @ number_to_string (id' (status result)) @ js ''): ''
                    @ description (status result) @ js ''\<newline>'')
                   (js ''\<newline>Output:\<newline>'') (stdout result) of
              Inl e \<Rightarrow> Inl e
            | Inr output1 \<Rightarrow>
                (case append_decoded output1 (js ''\<newline>Errors:\<newline>'') (stderr result) of
                   Inl e \<Rightarrow> Inl e
                 | Inr output2 \<Rightarrow>
                     append_decoded output2 (js ''\<newline>Compilation:\<newline>'') (compile_output result))))
      of
        Inl e \<Rightarrow> Inl e
      | Inr output \<Rightarrow> Inr (output @ execution_info result))"

section \<open>The remote service and the platform\<close>

text \<open>
  A JSON value as \<open>JSON.parse\<close> returns it. An object is its members in the order in
  which a property lookup finds them.
\<close>

datatype json =
    JNull
  | JBool bool
  | JNumber int
  | JString jsstring
  | JArray "json list"
  | JObject "(jsstring \<times> json) list"

text \<open>A request as \<open>fetch\<close> receives it; the body is the value given to \<open>JSON.stringify\<close>.\<close>

datatype http_method = GET | POST

record request =
  url :: jsstring
  request_method :: http_method
  headers :: "(jsstring \<times> jsstring) list"
  body :: "json option"

text \<open>
  What awaiting \<open>fetch\<close> and then \<open>response.text()\<close> gives: a rejection (a \<open>TypeError\<close>
  with the platform's message), or the HTTP status and the body text.
\<close>

datatype fetch_result = Rejected jsstring | Response int jsstring

text \<open>
  \<open>CodeTemplate\<close> of \<open>templates.ts\<close> (the fields \<open>value\<close> and \<open>description\<close> carry a prefix
  here).
\<close>

record CodeTemplate =
  template_value :: jsstring
  label :: jsstring
  judge0Id :: int
  template_description :: jsstring
  defaultCode :: jsstring
  exampleInput :: jsstring
  exampleOutput :: jsstring

text \<open>
  Everything outside the two source files. The network answers a request knowing the
  requests issued before it, so the state of a run is the list of requests issued so
  far. \<open>JSON.parse\<close> is the platform's; \<open>judge0.ts\<close> reads its result at type \<open>any\<close> in
  \<open>submitCode\<close> and at type \<open>ExecutionResult\<close> in \<open>getResult\<close>, and \<open>templates.ts\<close> reads
  \<open>response.json()\<close> at type \<open>CodeTemplate | null\<close>; the model takes each type at its word.
\<close>

record platform =
  respond :: "request list \<Rightarrow> request \<Rightarrow> fetch_result"
  JSON_parse :: "jsstring \<Rightarrow> js_exception + json"
  JSON_parse_result :: "jsstring \<Rightarrow> js_exception + ExecutionResult"
  JSON_parse_template :: "jsstring \<Rightarrow> js_exception + CodeTemplate option"
  platform_message :: "js_exception \<Rightarrow> jsstring"
  null_property_message :: "jsstring \<Rightarrow> jsstring"

type_synonym net = "request list"

definition fetch :: "platform \<Rightarrow> request \<Rightarrow> net \<Rightarrow> fetch_result \<times> net" where
  "fetch w req log = (respond w log req, log @ [req])"

definition response_ok :: "int \<Rightarrow> bool" where
  "response_ok st = (200 \<le> st \<and> st \<le> 299)"

text \<open>\<open>error.message\<close>\<close>

definition message :: "platform \<Rightarrow> js_exception \<Rightarrow> jsstring" where
  "message w e =
     (case e of Error m \<Rightarrow> m | TypeError m \<Rightarrow> m | SyntaxError m \<Rightarrow> m | _ \<Rightarrow> platform_message w e)"

text \<open>
  Reading one of the properties \<open>error\<close>, \<open>message\<close>, \<open>token\<close> of a parsed value: a
  \<open>TypeError\<close> on \<open>null\<close>, the member of an object, \<open>undefined\<close> (\<open>None\<close>) otherwise.
\<close>

definition get_property :: "platform \<Rightarrow> json \<Rightarrow> jsstring \<Rightarrow> js_exception + json option" where
  "get_property w v name =
     (case v of
        JNull \<Rightarrow> Inl (TypeError (null_property_message w name))
      | JObject members \<Rightarrow> Inr (map_of members name)
      | _ \<Rightarrow> Inr None)"

definition truthy :: "json option \<Rightarrow> bool" where
  "truthy x =
     (case x of
        None \<Rightarrow> False
      | Some JNull \<Rightarrow> False
      | Some (JBool b) \<Rightarrow> b
      | Some (JNumber n) \<Rightarrow> n \<noteq> 0
      | Some (JString s) \<Rightarrow> s \<noteq> []
      | Some _ \<Rightarrow> True)"

text \<open>
  The string a template literal makes of a value (\<open>ToString\<close> of ECMA-262). A parsed
  object has no callable member, so an object with a member of its own named
  \<open>toString\<close> cannot be converted: the member hides \<open>Object.prototype.toString\<close>, the
  inherited \<open>valueOf\<close> returns the object, and the conversion raises a \<open>TypeError\<close>. Any
  other object gives \<open>[object Object]\<close>. An array is the join of its elements by commas,
  \<open>null\<close> counting as empty, and raises what the first element that cannot be converted
  raises.
\<close>

fun join_comma :: "(js_exception + jsstring) list \<Rightarrow> js_exception + jsstring" where
  "join_comma [] = Inr []"
| "join_comma [x] = x"
| "join_comma (x # y # ys) =
     (case x of
        Inl e \<Rightarrow> Inl e
      | Inr s \<Rightarrow> (case join_comma (y # ys) of Inl e \<Rightarrow> Inl e | Inr t \<Rightarrow> Inr (s @ js '','' @ t)))"

fun to_string :: "json \<Rightarrow> js_exception + jsstring" where
  "to_string JNull = Inr (js ''null'')"
| "to_string (JBool b) = Inr (if b then js ''true'' else js ''false'')"
| "to_string (JNumber n) = Inr (number_to_string n)"
| "to_string (JString s) = Inr s"
| "to_string (JArray xs) = join_comma (map (\<lambda>x. if x = JNull then Inr [] else to_string x) xs)"
| "to_string (JObject members) =
     (if map_of members (js ''toString'') \<noteq> None then Inl ToPrimitiveError
      else Inr (js ''[object Object]''))"

section \<open>Judge0Service: submission, polling, execution\<close>

record Judge0Service =
  apiKey :: jsstring
  apiHost :: jsstring
  apiUrl :: jsstring

text \<open>The constructor: \<open>process.env.X || ""\<close> for each of the three settings.\<close>

definition or_empty :: "jsstring option \<Rightarrow> jsstring" where
  "or_empty x = (if truthy_string x then the x else [])"

definition new_Judge0Service :: "jsstring option \<Rightarrow> jsstring option \<Rightarrow> jsstring option \<Rightarrow> Judge0Service" where
  "new_Judge0Service key host base =
     \<lparr>apiKey = or_empty key, apiHost = or_empty host, apiUrl = or_empty base\<rparr>"

definition not_configured :: jsstring where
  "not_configured = js ''Judge0 API key not configured. Please check your .env.local file.''"

definition submit_request :: "Judge0Service \<Rightarrow> int \<Rightarrow> jsstring \<Rightarrow> jsstring \<Rightarrow> request" where
  "submit_request this languageId source_code stdin =
     \<lparr>url = apiUrl this @ js ''/submissions?base64_encoded=true&wait=false'',
      request_method = POST,
      headers = [(js ''Content-Type'', js ''application/json''),
                 (js ''X-RapidAPI-Key'', apiKey this),
                 (js ''X-RapidAPI-Host'', apiHost this)],
      body = Some (JObject [(js ''language_id'', JNumber languageId),
                            (js ''source_code'', JString source_code),
                            (js ''stdin'', JString stdin)])\<rparr>"

text \<open>
  \<^verbatim>\<open>if (m) { errorMessage += ` - ${m}` }\<close>: the message is extended when the member is
  truthy, and the exception of the conversion leaves the statement with the message
  as it was.
\<close>

definition append_member :: "jsstring \<Rightarrow> json option \<Rightarrow> js_exception + jsstring" where
  "append_member errorMessage member =
     (if truthy member
      then (case to_string (the member) of
              Inl e \<Rightarrow> Inl e
            | Inr s \<Rightarrow> Inr (errorMessage @ js '' - '' @ s))
      else Inr errorMessage)"

text \<open>
  The message of the \<open>Error\<close> thrown on a response that is not ok (lines 85 to 97): the
  status, then the \<open>error\<close> and \<open>message\<close> members of the parsed body when they are
  truthy. When a step of the \<open>try\<close> block throws (the parse, the read of a member of
  \<open>null\<close>, the conversion of a member to a string), the \<open>catch\<close> appends the body text
  to the message as it is at that point.
\<close>

definition rejection_message :: "platform \<Rightarrow> int \<Rightarrow> jsstring \<Rightarrow> jsstring" where
  "rejection_message w st responseText =
     (let errorMessage = js ''HTTP error! status: '' @ number_to_string st in
      case JSON_parse w responseText of
        Inl e \<Rightarrow> errorMessage @ js '' - '' @ responseText
      | Inr errorData \<Rightarrow>
          (case get_property w errorData (js ''error'') of
             Inl e \<Rightarrow> errorMessage @ js '' - '' @ responseText
           | Inr err \<Rightarrow>
               (case append_member errorMessage err of
                  Inl e \<Rightarrow> errorMessage @ js '' - '' @ responseText
                | Inr errorMessage1 \<Rightarrow>
                    (case get_property w errorData (js ''message'') of
                       Inl e \<Rightarrow> errorMessage1 @ js '' - '' @ responseText
                     | Inr msg \<Rightarrow>
                         (case append_member errorMessage1 msg of
                            Inl e \<Rightarrow> errorMessage1 @ js '' - '' @ responseText
                          | Inr errorMessage2 \<Rightarrow> errorMessage2)))))"

definition submitCode ::
  "Judge0Service \<Rightarrow> platform \<Rightarrow> int \<Rightarrow> jsstring \<Rightarrow> jsstring \<Rightarrow> net \<Rightarrow> (js_exception + json) \<times> net" where
  "submitCode this w languageId sourceCode stdin log =
     (if apiKey this = [] then (Inl (Error not_configured), log)
      else
        (case encodeBase64 sourceCode of
           Inl e \<Rightarrow> (Inl e, log)
         | Inr source_code \<Rightarrow>
             (case (if stdin \<noteq> [] then encodeBase64 stdin else Inr []) of
                Inl e \<Rightarrow> (Inl e, log)
              | Inr stdin64 \<Rightarrow>
                  (case fetch w (submit_request this languageId source_code stdin64) log of
                     (Rejected m, log') \<Rightarrow> (Inl (TypeError m), log')
                   | (Response st responseText, log') \<Rightarrow>
                       if \<not> response_ok st
                       then (Inl (Error (rejection_message w st responseText)), log')
                       else
                         (case JSON_parse w responseText of
                            Inl e \<Rightarrow> (Inl e, log')
                          | Inr result \<Rightarrow>
                              (case get_property w result (js ''token'') of
                                 Inl e \<Rightarrow> (Inl e, log')
                               | Inr token \<Rightarrow>
                                   if \<not> truthy token
                                   then (Inl (Error (js ''No token received from Judge0 API'')), log')
                                   else (Inr (the token), log')))))))"

text \<open>
  The request of \<open>getResult\<close> for a token that converts to a string. For a token that does
  not, \<open>getResult\<close> raises while it builds the URL and issues no request.
\<close>

definition token_text :: "json \<Rightarrow> jsstring" where
  "token_text token = (case to_string token of Inl e \<Rightarrow> [] | Inr t \<Rightarrow> t)"

definition result_request :: "Judge0Service \<Rightarrow> json \<Rightarrow> request" where
  "result_request this token =
     \<lparr>url = apiUrl this @ js ''/submissions/'' @ token_text token @ js ''?base64_encoded=true&fields=*'',
      request_method = GET,
      headers = [(js ''X-RapidAPI-Key'', apiKey this), (js ''X-RapidAPI-Host'', apiHost this)],
      body = None\<rparr>"

definition getResult ::
  "Judge0Service \<Rightarrow> platform \<Rightarrow> json \<Rightarrow> net \<Rightarrow> (js_exception + ExecutionResult) \<times> net" where
  "getResult this w token log =
     (if apiKey this = [] then (Inl (Error not_configured), log)
      else
        (case to_string token of
           Inl e \<Rightarrow> (Inl e, log)
         | Inr t \<Rightarrow>
             (case fetch w (result_request this token) log of
                (Rejected m, log') \<Rightarrow> (Inl (TypeError m), log')
              | (Response st responseText, log') \<Rightarrow>
                  if \<not> response_ok st
                  then (Inl (Error (js ''HTTP error! status: '' @ number_to_string st @ js '' - ''
                                    @ responseText)), log')
                  else (JSON_parse_result w responseText, log'))))"

definition maxAttempts :: nat where
  "maxAttempts = 30"

definition timed_out :: jsstring where
  "timed_out = js ''Error: Code execution timed out after 30 seconds''"

text \<open>
  The \<open>while\<close> loop of \<open>executeCode\<close> (lines 148 to 164), from a value of \<open>attempts\<close>. The
  one-second wait before each poll has no counterpart here.
\<close>

function poll ::
  "Judge0Service \<Rightarrow> platform \<Rightarrow> json \<Rightarrow> nat \<Rightarrow> net \<Rightarrow> (js_exception + jsstring) \<times> net" where
  "poll this w token attempts log =
     (if attempts < maxAttempts then
        (case getResult this w token log of
           (Inl e, log') \<Rightarrow> (Inl e, log')
         | (Inr result, log') \<Rightarrow>
             if id' (status result) \<le> 2 then poll this w token (Suc attempts) log'
             else (formatOutput result, log'))
      else (Inr timed_out, log))"
  by pat_completeness auto
termination
  by (relation "measure (\<lambda>(this, w, token, attempts, log). maxAttempts - attempts)") auto

text \<open>The \<open>try\<close> block of \<open>executeCode\<close>.\<close>

definition executeCode_try ::
  "Judge0Service \<Rightarrow> platform \<Rightarrow> int \<Rightarrow> jsstring \<Rightarrow> jsstring \<Rightarrow> net \<Rightarrow> (js_exception + jsstring) \<times> net" where
  "executeCode_try this w languageId sourceCode stdin log =
     (case submitCode this w languageId sourceCode stdin log of
        (Inl e, log') \<Rightarrow> (Inl e, log')
      | (Inr token, log') \<Rightarrow> poll this w token 0 log')"

text \<open>The \<open>catch\<close> block of \<open>executeCode\<close>: what the function does with a caught \<open>error\<close>.\<close>

definition executeCode_catch :: "platform \<Rightarrow> js_exception \<Rightarrow> js_exception + jsstring" where
  "executeCode_catch w error =
     (if string_includes (message w error) (js ''401'')
      then Inr (js ''Error: Invalid API key. Please check your Judge0 API configuration.'')
      else if string_includes (message w error) (js ''403'')
      then Inr (js ''Error: API access forbidden. Please check your Judge0 subscription.'')
      else if string_includes (message w error) (js ''429'')
      then Inr (js ''Error: Rate limit exceeded. Please try again later.'')
      else if string_includes (message w error) (js ''API key not configured'')
      then Inr (js ''Error: Judge0 API key not configured. Please add NEXT_PUBLIC_JUDGE0_API_KEY to your .env.local file.'')
      else Inl error)"

definition executeCode ::
  "Judge0Service \<Rightarrow> platform \<Rightarrow> int \<Rightarrow> jsstring \<Rightarrow> jsstring \<Rightarrow> net \<Rightarrow> (js_exception + jsstring) \<times> net" where
  "executeCode this w languageId sourceCode stdin log =
     (case executeCode_try this w languageId sourceCode stdin log of
        (Inl error, log') \<Rightarrow> (executeCode_catch w error, log')
      | (Inr output, log') \<Rightarrow> (Inr output, log'))"

section \<open>templates.ts\<close>

definition template_request :: "jsstring \<Rightarrow> request" where
  "template_request language =
     \<lparr>url = js ''/templates/'' @ language @ js ''.json'', request_method = GET, headers = [], body = None\<rparr>"

definition loadTemplate :: "platform \<Rightarrow> jsstring \<Rightarrow> net \<Rightarrow> CodeTemplate option \<times> net" where
  "loadTemplate w language log =
     (case fetch w (template_request language) log of
        (res, log') \<Rightarrow>
          (case
             (case res of
                Rejected m \<Rightarrow> Inl (TypeError m)
              | Response st responseText \<Rightarrow>
                  if \<not> response_ok st
                  then Inl (Error (js ''Failed to load template for '' @ language))
                  else JSON_parse_template w responseText)
           of
             Inl error \<Rightarrow> None
           | Inr data \<Rightarrow> data,
           log'))"

definition languages :: "jsstring list" where
  "languages = [js ''javascript'', js ''python'', js ''java'', js ''cpp'', js ''csharp'', js ''go'']"

text \<open>The \<open>for\<close> loop of \<open>loadAllTemplates\<close>, from a value of \<open>templates\<close>.\<close>

fun load_each :: "platform \<Rightarrow> jsstring list \<Rightarrow> CodeTemplate list \<Rightarrow> net \<Rightarrow> CodeTemplate list \<times> net" where
  "load_each w [] templates log = (templates, log)"
| "load_each w (lang # langs) templates log =
     (case loadTemplate w lang log of
        (None, log') \<Rightarrow> load_each w langs templates log'
      | (Some template, log') \<Rightarrow> load_each w langs (templates @ [template]) log')"

definition loadAllTemplates :: "platform \<Rightarrow> net \<Rightarrow> CodeTemplate list \<times> net" where
  "loadAllTemplates w log = load_each w languages [] log"

text \<open>
  What the loads of a list of languages yield, one after the other: the descriptor of
  each language, or \<open>None\<close>. It is compared with \<open>loadAllTemplates\<close> below.
\<close>

fun loaded :: "platform \<Rightarrow> jsstring list \<Rightarrow> net \<Rightarrow> CodeTemplate option list" where
  "loaded w [] log = []"
| "loaded w (lang # langs) log =
     fst (loadTemplate w lang log) # loaded w langs (snd (loadTemplate w lang log))"

section \<open>Well-formed strings and their UTF-8 bytes\<close>

text \<open>
  A string is well formed when it has no unpaired surrogate: every lead surrogate is
  followed by a trail surrogate, and no trail surrogate stands elsewhere
  (\<open>String.prototype.isWellFormed\<close>).
\<close>

fun well_formed :: "jsstring \<Rightarrow> bool" where
  "well_formed [] = True"
| "well_formed (c # rest) =
     (if is_lead_surrogate c
      then (case rest of [] \<Rightarrow> False | d # rest' \<Rightarrow> is_trail_surrogate d \<and> well_formed rest')
      else \<not> is_trail_surrogate c \<and> well_formed rest)"

text \<open>
  Unicode text is a sequence of scalar values (code points that are not surrogates); its
  JavaScript string is the UTF-16 form of each value in turn.
\<close>

definition scalar_value :: "nat \<Rightarrow> bool" where
  "scalar_value v = (v < 0x110000 \<and> \<not> (0xD800 \<le> v \<and> v \<le> 0xDFFF))"

definition unicode_text :: "nat list \<Rightarrow> jsstring" where
  "unicode_text vs = concat (map utf16_encode vs)"

text \<open>The UTF-8 bytes of a well-formed string, code point by code point.\<close>

fun utf8_string :: "jsstring \<Rightarrow> nat list" where
  "utf8_string [] = []"
| "utf8_string (c # rest) =
     (if is_lead_surrogate c
      then (case rest of [] \<Rightarrow> [] | d # rest' \<Rightarrow> utf8_encode (surrogate_pair c d) @ utf8_string rest')
      else utf8_encode (unat c) @ utf8_string rest)"

text \<open>A list of byte values.\<close>

definition bytes :: "nat list \<Rightarrow> bool" where
  "bytes bs = list_all (\<lambda>b. b < 256) bs"

text \<open>The base64 text of a list of bytes without its padding.\<close>

fun base64_body :: "nat list \<Rightarrow> jsstring" where
  "base64_body [] = []"
| "base64_body [a] = [base64_char (a div 4), base64_char (a mod 4 * 16)]"
| "base64_body [a, b] =
     [base64_char (a div 4), base64_char (a mod 4 * 16 + b div 16), base64_char (b mod 16 * 4)]"
| "base64_body (a # b # c # rest) =
     [base64_char (a div 4), base64_char (a mod 4 * 16 + b div 16),
      base64_char (b mod 16 * 4 + c div 64), base64_char (c mod 64)] @ base64_body rest"

section \<open>The display policy of the specification\<close>

text \<open>
  The table of section 4.1 of the specification, in the specification's words: for each
  status code from 3 to 14, the payload fields that the display text includes. It is
  compared with \<open>formatOutput\<close> below.
\<close>

datatype payload_field = Stdout | Stderr | CompileOutput

fun field_of :: "payload_field \<Rightarrow> ExecutionResult \<Rightarrow> jsstring option" where
  "field_of Stdout r = stdout r"
| "field_of Stderr r = stderr r"
| "field_of CompileOutput r = compile_output r"

definition policy_table :: "int \<Rightarrow> payload_field list" where
  "policy_table code =
     (if code = 3 \<or> code = 4 then [Stdout]
      else if code = 6 then [CompileOutput]
      else if code = 7 \<or> code = 11 \<or> code = 12 then [Stderr]
      else [])"

text \<open>The content of a field that is present and non-empty.\<close>

definition shown :: "payload_field \<Rightarrow> ExecutionResult \<Rightarrow> jsstring option" where
  "shown f r = (if truthy_string (field_of f r) then field_of f r else None)"

text \<open>
  The text for a code whose table entry is the field \<open>f\<close>: \<open>bare\<close> and the summary when
  the field is not shown, \<open>lead\<close>, the decoded field and the summary when it is.
\<close>

definition render_field ::
  "jsstring \<Rightarrow> jsstring \<Rightarrow> payload_field \<Rightarrow> ExecutionResult \<Rightarrow> js_exception + jsstring" where
  "render_field bare lead f r =
     (case shown f r of
        None \<Rightarrow> Inr (bare @ execution_info r)
      | Some s \<Rightarrow>
          (case decodeBase64 s of Inl e \<Rightarrow> Inl e | Inr d \<Rightarrow> Inr (lead @ d @ execution_info r)))"

text \<open>A payload field as the data model has it: absent, or text that \<open>atob\<close> accepts.\<close>

definition transport_encoded :: "jsstring option \<Rightarrow> bool" where
  "transport_encoded field =
     (case field of None \<Rightarrow> True | Some s \<Rightarrow> (case atob s of Inl e \<Rightarrow> False | Inr b \<Rightarrow> True))"

section \<open>Concrete runs\<close>

definition compile_error_result :: ExecutionResult where
  "compile_error_result =
     \<lparr>stdout = Some (js ''aGkK''), stderr = None,
      compile_output = Some (js ''ZXJyb3I6IHN5bnRheA==''),
      status = \<lparr>id' = 6, description = js ''Compilation Error''\<rparr>,
      time = None, memory = None\<rparr>"

definition zero_memory_result :: ExecutionResult where
  "zero_memory_result =
     \<lparr>stdout = None, stderr = None, compile_output = None,
      status = \<lparr>id' = 5, description = js ''Time Limit Exceeded''\<rparr>,
      time = Some (js ''2.0''), memory = Some 0\<rparr>"

text \<open>
  A configured service, a service without a key, and small platforms for them: the
  parsers know the few body texts the scripted networks send.
\<close>

definition demo_service :: Judge0Service where
  "demo_service = new_Judge0Service (Some (js ''key'')) (Some (js ''host'')) (Some (js ''https://judge0''))"

definition unconfigured_service :: Judge0Service where
  "unconfigured_service = new_Judge0Service None (Some (js ''host'')) (Some (js ''https://judge0''))"

definition queued_result :: ExecutionResult where
  "queued_result =
     \<lparr>stdout = None, stderr = None, compile_output = None,
      status = \<lparr>id' = 1, description = js ''In Queue''\<rparr>, time = None, memory = None\<rparr>"

definition zero_status_result :: ExecutionResult where
  "zero_status_result =
     \<lparr>stdout = None, stderr = None, compile_output = None,
      status = \<lparr>id' = 0, description = js ''Unknown''\<rparr>, time = None, memory = None\<rparr>"

definition accepted_result :: ExecutionResult where
  "accepted_result =
     \<lparr>stdout = Some (js ''aGkK''), stderr = None, compile_output = None,
      status = \<lparr>id' = 3, description = js ''Accepted''\<rparr>,
      time = Some (js ''0.01''), memory = Some 3000\<rparr>"

definition garbled_result :: ExecutionResult where
  "garbled_result =
     \<lparr>stdout = Some (js ''!''), stderr = None, compile_output = None,
      status = \<lparr>id' = 3, description = js ''Accepted''\<rparr>, time = None, memory = None\<rparr>"

definition demo_parse :: "jsstring \<Rightarrow> js_exception + json" where
  "demo_parse t =
     (if t = js ''token abc'' then Inr (JObject [(js ''token'', JString (js ''abc''))])
      else if t = js ''message'' then Inr (JObject [(js ''message'', JString (js ''Invalid API key''))])
      else if t = js ''empty object'' then Inr (JObject [])
      else Inl (SyntaxError (js ''Unexpected token'')))"

definition demo_parse_result :: "jsstring \<Rightarrow> js_exception + ExecutionResult" where
  "demo_parse_result t =
     (if t = js ''queued'' then Inr queued_result
      else if t = js ''zero'' then Inr zero_status_result
      else if t = js ''accepted'' then Inr accepted_result
      else if t = js ''garbled'' then Inr garbled_result
      else Inl (SyntaxError (js ''Unexpected token'')))"

definition demo_template :: "jsstring \<Rightarrow> CodeTemplate" where
  "demo_template name =
     \<lparr>template_value = name, label = name, judge0Id = 71, template_description = [],
      defaultCode = [], exampleInput = [], exampleOutput = []\<rparr>"

definition demo_parse_template :: "jsstring \<Rightarrow> js_exception + CodeTemplate option" where
  "demo_parse_template t =
     (if t = js ''null'' then Inr None
      else if t = js ''broken'' then Inl (SyntaxError (js ''Unexpected token''))
      else Inr (Some (demo_template t)))"

definition scripted :: "(request list \<Rightarrow> request \<Rightarrow> fetch_result) \<Rightarrow> platform" where
  "scripted answer =
     \<lparr>respond = answer, JSON_parse = demo_parse, JSON_parse_result = demo_parse_result,
      JSON_parse_template = demo_parse_template,
      platform_message = (\<lambda>e. js ''platform error''),
      null_property_message = (\<lambda>name. js ''Cannot read properties of null'')\<rparr>"

text \<open>A service that accepts the submission and then reports \<open>In Queue\<close> on every poll.\<close>

definition always_queued :: platform where
  "always_queued =
     scripted (\<lambda>log req. if request_method req = POST then Response 201 (js ''token abc'')
                          else Response 200 (js ''queued''))"

text \<open>A service whose first poll reports status 0 and whose later polls report \<open>Accepted\<close>.\<close>

definition zero_then_accepted :: platform where
  "zero_then_accepted =
     scripted (\<lambda>log req. if request_method req = POST then Response 201 (js ''token abc'')
                          else if length log \<le> 1 then Response 200 (js ''zero'')
                          else Response 200 (js ''accepted''))"

text \<open>A service that answers every request with HTTP 401.\<close>

definition unauthorized :: platform where
  "unauthorized = scripted (\<lambda>log req. Response 401 (js ''message''))"

text \<open>
  A service that accepts the submission, reports \<open>In Queue\<close> on the first poll and answers
  every later poll with HTTP 401.
\<close>

definition queued_then_unauthorized :: platform where
  "queued_then_unauthorized =
     scripted (\<lambda>log req. if request_method req = POST then Response 201 (js ''token abc'')
                          else if length log \<le> 1 then Response 200 (js ''queued'')
                          else Response 401 (js ''message''))"

text \<open>A service whose first poll reports \<open>Accepted\<close> with a stdout that is not base64.\<close>

definition garbled_payload :: platform where
  "garbled_payload =
     scripted (\<lambda>log req. if request_method req = POST then Response 201 (js ''token abc'')
                          else Response 200 (js ''garbled''))"


text \<open>
  A template store without \<open>python.json\<close>, with a \<open>java.json\<close> that does not parse, and
  with every other descriptor in place.
\<close>

definition template_store :: platform where
  "template_store =
     scripted (\<lambda>log req. if url req = js ''/templates/python.json'' then Response 404 (js ''Not Found'')
                          else if url req = js ''/templates/java.json'' then Response 200 (js ''broken'')
                          else Response 200 (url req))"

section \<open>Properties of formatOutput\<close>

lemma append_decoded_shown:
  "(case append_decoded out h (field_of f r) of Inl e \<Rightarrow> Inl e | Inr t \<Rightarrow> Inr (t @ execution_info r))
     = render_field out (out @ h) f r"
  by (auto simp: append_decoded_def shown_def truthy_string_def render_field_def
      split: option.splits sum.splits)

lemmas append_decoded_fields =
  append_decoded_shown [where f = Stdout, simplified]
  append_decoded_shown [where f = Stderr, simplified]
  append_decoded_shown [where f = CompileOutput, simplified]

lemma code_cases:
  "(3::int) \<le> code \<Longrightarrow> code \<le> 14 \<Longrightarrow>
   code \<in> {3, 4, 5, 6} \<or> code \<in> {7, 8, 9, 10} \<or> code \<in> {11, 12, 13, 14}"
  by (simp, arith)

lemma execution_info_cong:
  "status r' = status r \<Longrightarrow> time r' = time r \<Longrightarrow> memory r' = memory r \<Longrightarrow>
   execution_info r' = execution_info r"
  by (simp add: execution_info_def)

lemma execution_info_text:
  "execution_info r =
     js ''\<newline>\<newline>--- Execution Info ---\<newline>Status: '' @ description (status r) @ js '' (''
     @ number_to_string (id' (status r)) @ js '')\<newline>Time: ''
     @ (case time r of None \<Rightarrow> js ''N/A'' | Some t \<Rightarrow> if t = [] then js ''N/A'' else t)
     @ js ''s\<newline>Memory: ''
     @ (case memory r of None \<Rightarrow> js ''N/A'' | Some m \<Rightarrow> if m = 0 then js ''N/A'' else number_to_string m)
     @ js '' KB''"
  by (simp add: execution_info_def js_def truthy_string_def truthy_number_def split: option.splits)

lemma formatOutput_Inr:
  "formatOutput r = Inr text \<Longrightarrow> \<exists>body. text = body @ execution_info r"
  unfolding formatOutput_def by (auto split: sum.splits)

lemma decodeBase64_total:
  "atob s = Inr b \<Longrightarrow> \<exists>d. decodeBase64 s = Inr d"
  by (simp add: decodeBase64_def split: sum.splits)

lemma append_decoded_total:
  "transport_encoded field \<Longrightarrow> \<exists>t. append_decoded out h field = Inr t"
  using decodeBase64_total
  by (fastforce simp: transport_encoded_def append_decoded_def truthy_string_def
      split: option.splits sum.splits)

lemma formatOutput_3:
  "id' (status r) = 3 \<Longrightarrow>
   formatOutput r = render_field (js ''Code executed successfully (no output)'') (js ''Output:\<newline>'') Stdout r"
  by (simp add: formatOutput_def append_decoded_def shown_def truthy_string_def render_field_def
      split: option.splits sum.splits)

lemma formatOutput_plain:
  "formatOutput r =
     (if id' (status r) = 5 then Inr (js ''Time Limit Exceeded\<newline>'' @ execution_info r)
      else if id' (status r) = 8 then Inr (js ''Runtime Error (File Size Limit Exceeded)\<newline>'' @ execution_info r)
      else if id' (status r) = 9 then Inr (js ''Runtime Error (Floating Point Exception)\<newline>'' @ execution_info r)
      else if id' (status r) = 10 then Inr (js ''Runtime Error (Aborted)\<newline>'' @ execution_info r)
      else if id' (status r) = 13 then Inr (js ''Internal Error: Please try again later\<newline>'' @ execution_info r)
      else if id' (status r) = 14 then Inr (js ''Execution Format Error\<newline>'' @ execution_info r)
      else formatOutput r)"
  by (simp add: formatOutput_def)

lemma formatOutput_field:
  "formatOutput r =
     (if id' (status r) = 4 then render_field (js ''Wrong Answer\<newline>'') (js ''Wrong Answer\<newline>'' @ js ''Output:\<newline>'') Stdout r
      else if id' (status r) = 6 then render_field (js ''Compilation Error:\<newline>'') (js ''Compilation Error:\<newline>'') CompileOutput r
      else if id' (status r) = 7 then render_field (js ''Runtime Error (Segmentation Fault)\<newline>'') (js ''Runtime Error (Segmentation Fault)\<newline>'' @ js ''Error Details:\<newline>'') Stderr r
      else if id' (status r) = 11 then render_field (js ''Runtime Error (Non-zero Exit Code)\<newline>'') (js ''Runtime Error (Non-zero Exit Code)\<newline>'' @ js ''Error Details:\<newline>'') Stderr r
      else if id' (status r) = 12 then render_field (js ''Runtime Error\<newline>'') (js ''Runtime Error\<newline>'' @ js ''Error Details:\<newline>'') Stderr r
      else formatOutput r)"
  by (simp add: formatOutput_def append_decoded_fields)

lemma plainI:
  "policy_table i = [] \<Longrightarrow> (\<And>r. id' (status r) = i \<Longrightarrow> formatOutput r = Inr (plain @ execution_info r)) \<Longrightarrow>
   (policy_table i = [] \<and> (\<exists>label. \<forall>r. id' (status r) = i \<longrightarrow> formatOutput r = Inr (label @ execution_info r)))
       \<or> (\<exists>f bare lead. policy_table i = [f] \<and> (\<forall>r. id' (status r) = i \<longrightarrow> formatOutput r = render_field bare lead f r))"
  by blast

lemma fieldI:
  "policy_table i = [f] \<Longrightarrow> (\<And>r. id' (status r) = i \<Longrightarrow> formatOutput r = render_field bare lead f r) \<Longrightarrow>
   (policy_table i = [] \<and> (\<exists>label. \<forall>r. id' (status r) = i \<longrightarrow> formatOutput r = Inr (label @ execution_info r)))
       \<or> (\<exists>f bare lead. policy_table i = [f] \<and> (\<forall>r. id' (status r) = i \<longrightarrow> formatOutput r = render_field bare lead f r))"
  by blast

lemma formatOutput_shape:
  assumes "3 \<le> i" "i \<le> 14"
  shows "(policy_table i = [] \<and> (\<exists>label. \<forall>r. id' (status r) = i \<longrightarrow> formatOutput r = Inr (label @ execution_info r)))
       \<or> (\<exists>f bare lead. policy_table i = [f] \<and> (\<forall>r. id' (status r) = i \<longrightarrow> formatOutput r = render_field bare lead f r))"
  using code_cases [OF assms]
  apply (simp only: insert_iff empty_iff disj_assoc simp_thms)
  apply (elim disjE)
  subgoal by (rule fieldI) (simp_all add: policy_table_def formatOutput_3)
  subgoal by (rule fieldI, simp add: policy_table_def, subst formatOutput_field, simp)
  subgoal by (rule plainI, simp add: policy_table_def, subst formatOutput_plain, simp)
  subgoal by (rule fieldI, simp add: policy_table_def, subst formatOutput_field, simp)
  subgoal by (rule fieldI, simp add: policy_table_def, subst formatOutput_field, simp)
  subgoal by (rule plainI, simp add: policy_table_def, subst formatOutput_plain, simp)
  subgoal by (rule plainI, simp add: policy_table_def, subst formatOutput_plain, simp)
  subgoal by (rule plainI, simp add: policy_table_def, subst formatOutput_plain, simp)
  subgoal by (rule fieldI, simp add: policy_table_def, subst formatOutput_field, simp)
  subgoal by (rule fieldI, simp add: policy_table_def, subst formatOutput_field, simp)
  subgoal by (rule plainI, simp add: policy_table_def, subst formatOutput_plain, simp)
  subgoal by (rule plainI, simp add: policy_table_def, subst formatOutput_plain, simp)
  done


lemma formatOutput_total:
  assumes "transport_encoded (stdout r)" "transport_encoded (stderr r)" "transport_encoded (compile_output r)"
  shows "\<exists>text. formatOutput r = Inr text"
proof -
  have a: "\<And>out h. \<exists>t. append_decoded out h (stdout r) = Inr t"
    and b: "\<And>out h. \<exists>t. append_decoded out h (stderr r) = Inr t"
    and c: "\<And>out h. \<exists>t. append_decoded out h (compile_output r) = Inr t"
    using assms append_decoded_total by blast+
  obtain t1 where t1: "append_decoded
                   (js ''Unknown Status ('' @ number_to_string (id' (status r)) @ js ''): ''
                    @ description (status r) @ js ''\<newline>'')
                   (js ''\<newline>Output:\<newline>'') (stdout r) = Inr t1" using a by blast
  obtain t2 where t2: "append_decoded t1 (js ''\<newline>Errors:\<newline>'') (stderr r) = Inr t2" using b by blast
  obtain t3 where t3: "append_decoded t2 (js ''\<newline>Compilation:\<newline>'') (compile_output r) = Inr t3" using c by blast
  obtain u1 where u1: "append_decoded [] (js ''Output:\<newline>'') (stdout r) = Inr u1" using a by blast 
  obtain u2 where u2: "append_decoded (js ''Wrong Answer\<newline>'') (js ''Output:\<newline>'') (stdout r) = Inr u2" using a by blast 
  obtain u3 where u3: "append_decoded (js ''Compilation Error:\<newline>'') [] (compile_output r) = Inr u3" using c by blast 
  obtain u4 where u4: "append_decoded (js ''Runtime Error (Segmentation Fault)\<newline>'')
             (js ''Error Details:\<newline>'') (stderr r) = Inr u4" using b by blast 
  obtain u5 where u5: "append_decoded (js ''Runtime Error (Non-zero Exit Code)\<newline>'')
             (js ''Error Details:\<newline>'') (stderr r) = Inr u5" using b by blast 
  obtain u6 where u6: "append_decoded (js ''Runtime Error\<newline>'') (js ''Error Details:\<newline>'') (stderr r) = Inr u6" using b by blast 
  show ?thesis
    unfolding formatOutput_def by (simp add: t1 t2 t3 u1 u2 u3 u4 u5 u6)
qed

lemma decode_error_syntax:
  "decodeBase64 (js ''ZXJyb3I6IHN5bnRheA=='') = Inr (js ''error: syntax'')"
  by code_simp

text \<open>
  Claim C1. For a result whose status code is one of 3 to 14, the text of \<open>formatOutput\<close>
  is decided by the status, the time, the memory and the payload fields that the table
  of section 4.1 lists for the code, each counting only when present and non-empty: a
  result that agrees on these gives the same text, whatever its other payload fields
  hold. A listed field that is present and non-empty is decoded, and its decoded text
  stands in the output right before the summary block (when \<open>decodeBase64\<close> raises, the
  exception leaves \<open>formatOutput\<close>). With no listed field to show the function returns
  text, and for code 3 that text is the no-output note.
\<close>

theorem formatOutput_policy:
  assumes "3 \<le> id' (status r)" and "id' (status r) \<le> 14"
  shows "(\<forall>r'. status r' = status r \<and> time r' = time r \<and> memory r' = memory r
              \<and> list_all (\<lambda>f. shown f r' = shown f r) (policy_table (id' (status r)))
            \<longrightarrow> formatOutput r' = formatOutput r)
       \<and> list_all
           (\<lambda>f. case shown f r of
                  None \<Rightarrow> True
                | Some s \<Rightarrow>
                    (case decodeBase64 s of
                       Inl e \<Rightarrow> formatOutput r = Inl e
                     | Inr d \<Rightarrow> (\<exists>lead. formatOutput r = Inr (lead @ d @ execution_info r))))
           (policy_table (id' (status r)))
       \<and> (list_all (\<lambda>f. shown f r = None) (policy_table (id' (status r)))
            \<longrightarrow> (\<exists>plain. formatOutput r = Inr (plain @ execution_info r)))
       \<and> (id' (status r) = 3 \<and> shown Stdout r = None
            \<longrightarrow> formatOutput r = Inr (js ''Code executed successfully (no output)'' @ execution_info r))"
proof -
  have no_output: "id' (status r) = 3 \<and> shown Stdout r = None
            \<longrightarrow> formatOutput r = Inr (js ''Code executed successfully (no output)'' @ execution_info r)"
    by (simp add: formatOutput_3 render_field_def)
  from formatOutput_shape [OF assms] show ?thesis
  proof (elim disjE exE conjE)
    fix p
    assume pt: "policy_table (id' (status r)) = []"
      and fo: "\<forall>r'. id' (status r') = id' (status r) \<longrightarrow> formatOutput r' = Inr (p @ execution_info r')"
    have indep: "formatOutput r' = formatOutput r"
      if h: "status r' = status r \<and> time r' = time r \<and> memory r' = memory r" for r'
    proof -
      have "id' (status r') = id' (status r)" using h by simp
      then have "formatOutput r' = Inr (p @ execution_info r')" using fo by simp
      moreover have "formatOutput r = Inr (p @ execution_info r)" using fo by simp
      moreover have "execution_info r' = execution_info r" using h by (intro execution_info_cong) auto
      ultimately show ?thesis by simp
    qed
    have ret: "\<exists>plain. formatOutput r = Inr (plain @ execution_info r)"
      using fo by simp
    have "\<forall>r'. status r' = status r \<and> time r' = time r \<and> memory r' = memory r
              \<and> list_all (\<lambda>f. shown f r' = shown f r) []
            \<longrightarrow> formatOutput r' = formatOutput r"
    proof (intro allI impI)
      fix r'
      assume "status r' = status r \<and> time r' = time r \<and> memory r' = memory r
              \<and> list_all (\<lambda>f. shown f r' = shown f r) []"
      then have "status r' = status r \<and> time r' = time r \<and> memory r' = memory r" by simp
      then show "formatOutput r' = formatOutput r" by (rule indep)
    qed
    moreover have "list_all
           (\<lambda>f. case shown f r of
                  None \<Rightarrow> True
                | Some s \<Rightarrow>
                    (case decodeBase64 s of
                       Inl e \<Rightarrow> formatOutput r = Inl e
                     | Inr d \<Rightarrow> (\<exists>lead. formatOutput r = Inr (lead @ d @ execution_info r))))
           []"
      by simp
    moreover have "list_all (\<lambda>f. shown f r = None) []
            \<longrightarrow> (\<exists>plain. formatOutput r = Inr (plain @ execution_info r))"
      using ret by simp
    moreover note no_output
    ultimately show ?thesis
      unfolding pt by (intro conjI)
  next
    fix f bare lead
    assume pt: "policy_table (id' (status r)) = [f]"
      and fo: "\<forall>r'. id' (status r') = id' (status r) \<longrightarrow> formatOutput r' = render_field bare lead f r'"
    have fr: "formatOutput r = render_field bare lead f r" using fo by simp
    have indep: "formatOutput r' = formatOutput r"
      if h: "status r' = status r \<and> time r' = time r \<and> memory r' = memory r \<and> shown f r' = shown f r" for r'
    proof -
      have "id' (status r') = id' (status r)" using h by simp
      then have "formatOutput r' = render_field bare lead f r'" using fo by simp
      moreover have "execution_info r' = execution_info r" using h by (intro execution_info_cong) auto
      moreover have "shown f r' = shown f r" using h by simp
      ultimately show ?thesis unfolding fr by (simp add: render_field_def split: option.splits sum.splits)
    qed
    have ret: "shown f r = None \<longrightarrow> (\<exists>plain. formatOutput r = Inr (plain @ execution_info r))"
      unfolding fr by (simp add: render_field_def)
    have incl: "case shown f r of
                  None \<Rightarrow> True
                | Some s \<Rightarrow>
                    (case decodeBase64 s of
                       Inl e \<Rightarrow> formatOutput r = Inl e
                     | Inr d \<Rightarrow> (\<exists>lead. formatOutput r = Inr (lead @ d @ execution_info r)))"
      unfolding fr by (simp add: render_field_def split: option.splits sum.splits)
    have "\<forall>r'. status r' = status r \<and> time r' = time r \<and> memory r' = memory r
              \<and> list_all (\<lambda>f. shown f r' = shown f r) [f]
            \<longrightarrow> formatOutput r' = formatOutput r"
    proof (intro allI impI)
      fix r'
      assume "status r' = status r \<and> time r' = time r \<and> memory r' = memory r
              \<and> list_all (\<lambda>f. shown f r' = shown f r) [f]"
      then have "status r' = status r \<and> time r' = time r \<and> memory r' = memory r
              \<and> shown f r' = shown f r" by simp
      then show "formatOutput r' = formatOutput r" by (rule indep)
    qed
    moreover have "list_all
           (\<lambda>f. case shown f r of
                  None \<Rightarrow> True
                | Some s \<Rightarrow>
                    (case decodeBase64 s of
                       Inl e \<Rightarrow> formatOutput r = Inl e
                     | Inr d \<Rightarrow> (\<exists>lead. formatOutput r = Inr (lead @ d @ execution_info r))))
           [f]"
      using incl by simp
    moreover have "list_all (\<lambda>f. shown f r = None) [f]
            \<longrightarrow> (\<exists>plain. formatOutput r = Inr (plain @ execution_info r))"
      using ret by simp
    moreover note no_output
    ultimately show ?thesis
      unfolding pt by (intro conjI)
  qed
qed

theorem formatOutput_policy_witness:
  "3 \<le> id' (status compile_error_result) \<and> id' (status compile_error_result) \<le> 14
   \<and> formatOutput (compile_error_result\<lparr>stdout := None\<rparr>) = formatOutput compile_error_result
   \<and> (\<exists>lead. formatOutput compile_error_result
               = Inr (lead @ js ''error: syntax'' @ execution_info compile_error_result))"
proof -
  have h1: "3 \<le> id' (status compile_error_result)"
    and h2: "id' (status compile_error_result) \<le> 14"
    by (simp_all add: compile_error_result_def)
  have p: "policy_table (id' (status compile_error_result)) = [CompileOutput]"
    by (simp add: compile_error_result_def policy_table_def)
  have s: "shown CompileOutput compile_error_result = Some (js ''ZXJyb3I6IHN5bnRheA=='')"
    by (simp add: compile_error_result_def shown_def truthy_string_def js_def)
  note T = formatOutput_policy [OF h1 h2, unfolded p]
  have "formatOutput (compile_error_result\<lparr>stdout := None\<rparr>) = formatOutput compile_error_result"
    using T [THEN conjunct1, rule_format, of "compile_error_result\<lparr>stdout := None\<rparr>"]
    by (simp add: shown_def)
  moreover have "\<exists>lead. formatOutput compile_error_result
               = Inr (lead @ js ''error: syntax'' @ execution_info compile_error_result)"
    using T [THEN conjunct2, THEN conjunct1] by (simp add: s decode_error_syntax)
  ultimately show ?thesis using h1 h2 by (intro conjI)
qed

text \<open>
  Claim C5, as the code has it. Whenever \<open>formatOutput\<close> returns text (and it does when
  each payload field is absent or text that \<open>atob\<close> accepts), the text ends with the
  summary block: the status description and the status code in decimal, the time, and
  the memory. The placeholder \<open>N/A\<close> stands for the time when the field is absent or
  empty, and for the memory when the field is absent or 0.
\<close>

theorem formatOutput_summary:
  "(transport_encoded (stdout r) \<and> transport_encoded (stderr r) \<and> transport_encoded (compile_output r)
      \<longrightarrow> (\<exists>text. formatOutput r = Inr text))
   \<and> (\<forall>text. formatOutput r = Inr text \<longrightarrow>
        (\<exists>output. text = output
           @ js ''\<newline>\<newline>--- Execution Info ---\<newline>Status: '' @ description (status r) @ js '' (''
           @ number_to_string (id' (status r)) @ js '')\<newline>Time: ''
           @ (case time r of None \<Rightarrow> js ''N/A'' | Some t \<Rightarrow> if t = [] then js ''N/A'' else t)
           @ js ''s\<newline>Memory: ''
           @ (case memory r of None \<Rightarrow> js ''N/A'' | Some m \<Rightarrow> if m = 0 then js ''N/A'' else number_to_string m)
           @ js '' KB''))"
proof (intro conjI impI allI)
  assume "transport_encoded (stdout r) \<and> transport_encoded (stderr r) \<and> transport_encoded (compile_output r)"
  then show "\<exists>text. formatOutput r = Inr text"
    using formatOutput_total [of r] by blast
next
  fix t
  assume "formatOutput r = Inr t"
  then obtain b where "t = b @ execution_info r"
    using formatOutput_Inr by blast
  then show "\<exists>output. t = output
           @ js ''\<newline>\<newline>--- Execution Info ---\<newline>Status: '' @ description (status r) @ js '' (''
           @ number_to_string (id' (status r)) @ js '')\<newline>Time: ''
           @ (case time r of None \<Rightarrow> js ''N/A'' | Some t \<Rightarrow> if t = [] then js ''N/A'' else t)
           @ js ''s\<newline>Memory: ''
           @ (case memory r of None \<Rightarrow> js ''N/A'' | Some m \<Rightarrow> if m = 0 then js ''N/A'' else number_to_string m)
           @ js '' KB''"
    unfolding execution_info_text [symmetric] by (rule exI)
qed

theorem formatOutput_summary_witness:
  "transport_encoded (stdout zero_memory_result) \<and> transport_encoded (stderr zero_memory_result)
   \<and> transport_encoded (compile_output zero_memory_result)
   \<and> (\<exists>text. formatOutput zero_memory_result = Inr text)"
  using formatOutput_summary [of zero_memory_result]
  by (simp add: zero_memory_result_def transport_encoded_def)

text \<open>
  Against claim C5 as stated (the placeholder exactly when the field is absent): a
  result whose memory field is present and 0 is shown with the placeholder.
\<close>

theorem formatOutput_zero_memory_counterexample:
  "memory zero_memory_result = Some 0 \<and>
   formatOutput zero_memory_result =
     Inr (js ''Time Limit Exceeded\<newline>\<newline>\<newline>--- Execution Info ---\<newline>Status: Time Limit Exceeded (5)\<newline>Time: 2.0s\<newline>Memory: N/A KB'')"
  by (simp add: zero_memory_result_def formatOutput_def execution_info_def truthy_string_def
      truthy_number_def number_to_string_def js_def digit_char_def)

section \<open>Properties of the client\<close>

declare poll.simps [simp del]

text \<open>The model of \<open>includes\<close> is the substring relation.\<close>

lemma starts_with_iff: "starts_with s p \<longleftrightarrow> (\<exists>q. s = p @ q)"
  by (induction s p rule: starts_with.induct) auto

lemma string_includes_iff: "string_includes s sub \<longleftrightarrow> (\<exists>p q. s = p @ sub @ q)"
proof (induction s)
  case Nil
  then show ?case by (cases sub) auto
next
  case (Cons c s)
  show ?case
  proof
    assume "string_includes (c # s) sub"
    then consider "starts_with (c # s) sub" | "string_includes s sub" by auto
    then show "\<exists>p q. c # s = p @ sub @ q"
    proof cases
      case 1
      then obtain q where "c # s = sub @ q" using starts_with_iff by blast
      then have "c # s = [] @ sub @ q" by simp
      then show ?thesis by blast
    next
      case 2
      then obtain p q where "s = p @ sub @ q" using Cons.IH by blast
      then have "c # s = (c # p) @ sub @ q" by simp
      then show ?thesis by blast
    qed
  next
    assume "\<exists>p q. c # s = p @ sub @ q"
    then obtain p q where pq: "c # s = p @ sub @ q" by blast
    show "string_includes (c # s) sub"
    proof (cases p)
      case Nil
      then have "starts_with (c # s) sub" using pq starts_with_iff by fastforce
      then show ?thesis by simp
    next
      case (Cons a p')
      then have "s = p' @ sub @ q" using pq by simp
      then have "string_includes s sub" using Cons.IH by blast
      then show ?thesis by simp
    qed
  qed
qed

lemma not_configured_matches:
  "\<not> string_includes not_configured (js ''401'')"
  "\<not> string_includes not_configured (js ''403'')"
  "\<not> string_includes not_configured (js ''429'')"
  "string_includes not_configured (js ''API key not configured'')"
  by (simp_all add: not_configured_def js_def)

lemma catch_not_configured:
  "executeCode_catch w (Error not_configured) =
     Inr (js ''Error: Judge0 API key not configured. Please add NEXT_PUBLIC_JUDGE0_API_KEY to your .env.local file.'')"
  by (simp add: executeCode_catch_def message_def not_configured_matches)

text \<open>
  Claim C6. Without a key \<open>submitCode\<close> raises the configuration error and issues no
  request: the list of requests is the one it started with. \<open>executeCode\<close> does not try
  again: it turns the error into its guidance text, and no request has been issued.
\<close>

theorem submitCode_unconfigured:
  assumes "apiKey this = []"
  shows "submitCode this w languageId sourceCode stdin log = (Inl (Error not_configured), log)
       \<and> executeCode this w languageId sourceCode stdin log =
           (Inr (js ''Error: Judge0 API key not configured. Please add NEXT_PUBLIC_JUDGE0_API_KEY to your .env.local file.''), log)"
proof -
  have s: "submitCode this w languageId sourceCode stdin log = (Inl (Error not_configured), log)"
    using assms by (simp add: submitCode_def)
  then show ?thesis
    by (simp add: executeCode_def executeCode_try_def catch_not_configured)
qed

lemma unconfigured_key: "apiKey unconfigured_service = []"
  by (simp add: unconfigured_service_def new_Judge0Service_def or_empty_def truthy_string_def)

theorem submitCode_unconfigured_witness:
  "apiKey unconfigured_service = []
   \<and> submitCode unconfigured_service always_queued 71 (js ''1'') [] [] = (Inl (Error not_configured), [])
   \<and> executeCode unconfigured_service always_queued 71 (js ''1'') [] [] =
           (Inr (js ''Error: Judge0 API key not configured. Please add NEXT_PUBLIC_JUDGE0_API_KEY to your .env.local file.''), [])"
  using submitCode_unconfigured [OF unconfigured_key, of always_queued 71 "js ''1''" "[]" "[]"]
  by (simp add: unconfigured_key)

text \<open>
  Claim C10. Without a key \<open>getResult\<close> raises the same configuration error and issues
  no request.
\<close>

theorem getResult_unconfigured:
  assumes "apiKey this = []"
  shows "getResult this w token log = (Inl (Error not_configured), log)"
  using assms by (simp add: getResult_def)

theorem getResult_unconfigured_witness:
  "apiKey unconfigured_service = []
   \<and> getResult unconfigured_service always_queued (JString (js ''abc'')) [] = (Inl (Error not_configured), [])"
  using getResult_unconfigured [OF unconfigured_key, of always_queued "JString (js ''abc'')" "[]"]
  by (simp add: unconfigured_key)

lemma encode_1: "encodeBase64 (js ''1'') = Inr (js ''MQ=='')"
  by code_simp

lemma demo_key: "apiKey demo_service = js ''key''"
  by (simp add: demo_service_def new_Judge0Service_def or_empty_def truthy_string_def js_def)

lemma demo_key_nonempty: "apiKey demo_service \<noteq> []"
  by (simp add: demo_key js_def)

lemma fetch_scripted: "fetch (scripted answer) req log = (answer log req, log @ [req])"
  by (simp add: fetch_def scripted_def)

lemma scripted_simps:
  "JSON_parse (scripted answer) = demo_parse"
  "JSON_parse_result (scripted answer) = demo_parse_result"
  "JSON_parse_template (scripted answer) = demo_parse_template"
  "respond (scripted answer) = answer"
  by (simp_all add: scripted_def)

lemma getResult_log:
  "getResult this w token log = (Inr r, log') \<Longrightarrow> log' = log @ [result_request this token]"
  by (auto simp: getResult_def fetch_def split: if_splits fetch_result.splits sum.splits)

lemma submitCode_response:
  assumes "apiKey this \<noteq> []"
    and "encodeBase64 sourceCode = Inr source_code"
    and "(if stdin \<noteq> [] then encodeBase64 stdin else Inr []) = Inr stdin64"
    and "respond w log (submit_request this languageId source_code stdin64) = Response st responseText"
  shows "submitCode this w languageId sourceCode stdin log =
     (if \<not> response_ok st then Inl (Error (rejection_message w st responseText))
      else
        (case JSON_parse w responseText of
           Inl e \<Rightarrow> Inl e
         | Inr result \<Rightarrow>
             (case get_property w result (js ''token'') of
                Inl e \<Rightarrow> Inl e
              | Inr token \<Rightarrow>
                  if \<not> truthy token then Inl (Error (js ''No token received from Judge0 API''))
                  else Inr (the token))),
      log @ [submit_request this languageId source_code stdin64])"
  using assms(1,4) unfolding submitCode_def assms(2) assms(3) fetch_def
  by (simp split: sum.splits)


lemma append_member_from:
  "append_member m member =
     (case append_member [] member of Inl e \<Rightarrow> Inl e | Inr suffix \<Rightarrow> Inr (m @ suffix))"
  by (simp add: append_member_def split: sum.splits)

lemma append_member_string:
  "append_member m None = Inr m"
  "s \<noteq> [] \<Longrightarrow> append_member m (Some (JString s)) = Inr (m @ js '' - '' @ s)"
  by (simp_all add: append_member_def truthy_def)



lemma rejection_message_object:
  assumes "JSON_parse w responseText = Inr (JObject members)"
  shows "rejection_message w st responseText =
     (case append_member [] (map_of members (js ''error'')) of
        Inl e \<Rightarrow> js ''HTTP error! status: '' @ number_to_string st @ js '' - '' @ responseText
      | Inr error_part \<Rightarrow>
          (case append_member [] (map_of members (js ''message'')) of
             Inl e \<Rightarrow>
               js ''HTTP error! status: '' @ number_to_string st @ error_part @ js '' - '' @ responseText
           | Inr message_part \<Rightarrow>
               js ''HTTP error! status: '' @ number_to_string st @ error_part @ message_part))"
  using assms
  by (simp add: rejection_message_def get_property_def
      append_member_from [of "js ''HTTP error! status: '' @ number_to_string st"]
      append_member_from [of "js ''HTTP error! status: '' @ number_to_string st @ suffix" for suffix]
      split: sum.splits)







lemma poll_run:
  assumes "\<forall>k<n. \<exists>r. fst (getResult this w token (log @ replicate k (result_request this token))) = Inr r
              \<and> id' (status r) \<le> 2"
    and "attempts + n = maxAttempts"
  shows "poll this w token attempts log = (Inr timed_out, log @ replicate n (result_request this token))"
  using assms
proof (induction n arbitrary: attempts log)
  case 0
  then show ?case by (simp add: poll.simps)
next
  case (Suc n)
  from Suc.prems(1) obtain r where r: "fst (getResult this w token log) = Inr r" "id' (status r) \<le> 2"
    by fastforce
  obtain log' where g: "getResult this w token log = (Inr r, log')"
    using r(1) by (cases "getResult this w token log") simp
  have log': "log' = log @ [result_request this token]"
    using g by (rule getResult_log)
  have step: "poll this w token attempts log = poll this w token (Suc attempts) log'"
    using Suc.prems(2) r(2) by (subst poll.simps) (simp add: g)
  have "\<forall>k<n. \<exists>r. fst (getResult this w token (log' @ replicate k (result_request this token))) = Inr r
              \<and> id' (status r) \<le> 2"
  proof (intro allI impI)
    fix k assume "k < n"
    then have "Suc k < Suc n" by simp
    with Suc.prems(1) have "\<exists>r. fst (getResult this w token (log @ replicate (Suc k) (result_request this token))) = Inr r
              \<and> id' (status r) \<le> 2" by blast
    then show "\<exists>r. fst (getResult this w token (log' @ replicate k (result_request this token))) = Inr r
              \<and> id' (status r) \<le> 2"
      by (simp add: log')
  qed
  moreover have "Suc attempts + n = maxAttempts" using Suc.prems(2) by simp
  ultimately have "poll this w token (Suc attempts) log' = (Inr timed_out, log' @ replicate n (result_request this token))"
    by (rule Suc.IH)
  then show ?case by (simp add: step log' replicate_app_Cons_same)
qed

lemma newline_in_info: "0x0A \<in> set (execution_info r)"
  by (simp add: execution_info_def js_def)

lemma timed_out_one_line: "0x0A \<notin> set timed_out"
  by (simp add: timed_out_def js_def)

lemma formatOutput_not_timed_out: "formatOutput r \<noteq> Inr timed_out"
proof
  assume "formatOutput r = Inr timed_out"
  then obtain b where "timed_out = b @ execution_info r"
    using formatOutput_Inr by blast
  then have "set timed_out = set b \<union> set (execution_info r)"
    by (metis set_append)
  then have "0x0A \<in> set timed_out" using newline_in_info [of r] by blast
  then show False using timed_out_one_line by blast
qed

lemma catch_not_timed_out: "executeCode_catch w e \<noteq> Inr timed_out"
  by (simp add: executeCode_catch_def timed_out_def js_def)

lemma executeCode_after_submit:
  assumes "submitCode this w languageId sourceCode stdin log0 = (Inr token, log)"
  shows "executeCode this w languageId sourceCode stdin log0 =
     (case poll this w token 0 log of
        (Inl e, log') \<Rightarrow> (executeCode_catch w e, log')
      | (Inr t, log') \<Rightarrow> (Inr t, log'))"
  using assms by (simp add: executeCode_def executeCode_try_def split: prod.splits sum.splits)

lemma max_30: "maxAttempts = 30"
  by (simp add: maxAttempts_def)

text \<open>
  Claim C3. When each of the polls that the loop issues (the one after \<open>k\<close> earlier polls,
  for every \<open>k\<close> below 30) reports a status that keeps the loop going, the loop issues
  exactly 30 requests and returns the timeout text; so does \<open>executeCode\<close> after a
  submission that returned the token. The timeout text is a returned value, not an
  exception, and it is neither the text \<open>formatOutput\<close> gives for any result nor a
  guidance text of the \<open>catch\<close> block.
\<close>

theorem poll_times_out:
  assumes "\<forall>k<maxAttempts.
             \<exists>r. fst (getResult this w token (log @ replicate k (result_request this token))) = Inr r
                 \<and> id' (status r) \<le> 2"
  shows "poll this w token 0 log = (Inr timed_out, log @ replicate 30 (result_request this token))
       \<and> (\<forall>languageId sourceCode stdin log0.
             submitCode this w languageId sourceCode stdin log0 = (Inr token, log) \<longrightarrow>
             executeCode this w languageId sourceCode stdin log0 =
               (Inr timed_out, log @ replicate 30 (result_request this token)))
       \<and> (\<forall>r. formatOutput r \<noteq> Inr timed_out)
       \<and> (\<forall>e. executeCode_catch w e \<noteq> Inr timed_out)"
proof -
  have p: "poll this w token 0 log = (Inr timed_out, log @ replicate 30 (result_request this token))"
    using poll_run [OF assms, of 0] by (simp add: max_30)
  have "executeCode this w languageId sourceCode stdin log0 =
               (Inr timed_out, log @ replicate 30 (result_request this token))"
    if "submitCode this w languageId sourceCode stdin log0 = (Inr token, log)"
    for languageId sourceCode stdin log0
    using executeCode_after_submit [OF that] by (simp add: p)
  then show ?thesis
    using p formatOutput_not_timed_out catch_not_timed_out by blast
qed

lemma demo_token_request_method:
  "request_method (result_request this token) = GET"
  by (simp add: result_request_def)

lemma getResult_always_queued:
  "getResult demo_service always_queued (JString t) log =
     (Inr queued_result, log @ [result_request demo_service (JString t)])"
  by (simp add: getResult_def demo_key_nonempty always_queued_def fetch_scripted demo_token_request_method
      response_ok_def scripted_simps demo_parse_result_def)

lemma submit_always_queued:
  "submitCode demo_service always_queued 71 (js ''1'') [] [] =
     (Inr (JString (js ''abc'')), [submit_request demo_service 71 (js ''MQ=='') []])"
proof -
  have "respond always_queued [] (submit_request demo_service 71 (js ''MQ=='') []) = Response 201 (js ''token abc'')"
    by (simp add: always_queued_def scripted_simps submit_request_def)
  from submitCode_response [OF demo_key_nonempty encode_1 _ this, of "[]"]
  show ?thesis
    by (simp add: response_ok_def always_queued_def scripted_simps demo_parse_def get_property_def
        truthy_def js_def)
qed

theorem poll_times_out_witness:
  "executeCode demo_service always_queued 71 (js ''1'') [] [] =
     (Inr timed_out,
      [submit_request demo_service 71 (js ''MQ=='') []]
      @ replicate 30 (result_request demo_service (JString (js ''abc''))))"
proof -
  have "\<forall>k<maxAttempts.
             \<exists>r. fst (getResult demo_service always_queued (JString (js ''abc''))
                        ([submit_request demo_service 71 (js ''MQ=='') []]
                         @ replicate k (result_request demo_service (JString (js ''abc''))))) = Inr r
                 \<and> id' (status r) \<le> 2"
    by (simp add: getResult_always_queued queued_result_def)
  from poll_times_out [OF this, THEN conjunct2, THEN conjunct1, rule_format, OF submit_always_queued]
  show ?thesis .
qed

text \<open>
  Claim C2, as the code has it. The loop tests \<open>result.status.id <= 2\<close>: a poll that
  reports a status id of at most 2 (the ids 1 and 2, and also 0 and every negative id)
  is followed by the next iteration, with \<open>attempts\<close> counted up; a poll that reports an
  id above 2 ends the loop at once with \<open>formatOutput\<close> of the fetched result, after
  exactly that one request. In \<open>executeCode\<close> the formatted text is returned, and an
  exception of \<open>formatOutput\<close> goes to the \<open>catch\<close> block.
\<close>

theorem poll_step:
  assumes "attempts < maxAttempts"
    and "getResult this w token log = (Inr result, log')"
  shows "log' = log @ [result_request this token]
       \<and> (id' (status result) \<le> 2 \<longrightarrow>
            poll this w token attempts log = poll this w token (Suc attempts) log')
       \<and> (2 < id' (status result) \<longrightarrow>
            poll this w token attempts log = (formatOutput result, log'))
       \<and> (2 < id' (status result) \<longrightarrow>
            (\<forall>languageId sourceCode stdin log0.
               attempts = 0 \<and> submitCode this w languageId sourceCode stdin log0 = (Inr token, log) \<longrightarrow>
               executeCode this w languageId sourceCode stdin log0 =
                 (case formatOutput result of Inl e \<Rightarrow> executeCode_catch w e | Inr t \<Rightarrow> Inr t, log')))"
proof -
  have a: "log' = log @ [result_request this token]"
    using assms(2) by (rule getResult_log)
  have b: "poll this w token attempts log = poll this w token (Suc attempts) log'"
    if "id' (status result) \<le> 2"
    using assms that by (subst poll.simps) simp
  have c: "poll this w token attempts log = (formatOutput result, log')"
    if "2 < id' (status result)"
    using assms that by (subst poll.simps) simp
  have d: "executeCode this w languageId sourceCode stdin log0 =
                 (case formatOutput result of Inl e \<Rightarrow> executeCode_catch w e | Inr t \<Rightarrow> Inr t, log')"
    if "2 < id' (status result)" "attempts = 0"
      "submitCode this w languageId sourceCode stdin log0 = (Inr token, log)"
    for languageId sourceCode stdin log0
    using executeCode_after_submit [OF that(3)] c [OF that(1)] that(2)
    by (simp split: sum.splits)
  show ?thesis using a b c d by blast
qed

lemma getResult_zero_first:
  "getResult demo_service zero_then_accepted (JString t) [s] =
     (Inr zero_status_result, [s, result_request demo_service (JString t)])"
  by (simp add: getResult_def demo_key_nonempty zero_then_accepted_def fetch_scripted
      demo_token_request_method response_ok_def scripted_simps demo_parse_result_def js_def)

lemma getResult_accepted_second:
  "getResult demo_service zero_then_accepted (JString t) [s, p] =
     (Inr accepted_result, [s, p, result_request demo_service (JString t)])"
  by (simp add: getResult_def demo_key_nonempty zero_then_accepted_def fetch_scripted
      demo_token_request_method response_ok_def scripted_simps demo_parse_result_def js_def)

theorem poll_step_witness:
  "poll demo_service zero_then_accepted (JString (js ''abc'')) 1
     [submit_request demo_service 71 (js ''MQ=='') [], result_request demo_service (JString (js ''abc''))]
   = (formatOutput accepted_result,
      [submit_request demo_service 71 (js ''MQ=='') [], result_request demo_service (JString (js ''abc'')),
       result_request demo_service (JString (js ''abc''))])"
proof -
  have "(1::nat) < maxAttempts" by (simp add: max_30)
  from poll_step [OF this getResult_accepted_second, THEN conjunct2, THEN conjunct2, THEN conjunct1]
  show ?thesis by (simp add: accepted_result_def)
qed

text \<open>
  Against claim C2 as stated (every id other than 1 and 2, also 0 and below, ends the
  loop): the first poll reports id 0, and the loop polls again and returns the text of
  the second poll's result.
\<close>

theorem poll_continues_on_zero_counterexample:
  "getResult demo_service zero_then_accepted (JString (js ''abc''))
       [submit_request demo_service 71 (js ''MQ=='') []]
     = (Inr zero_status_result,
        [submit_request demo_service 71 (js ''MQ=='') [], result_request demo_service (JString (js ''abc''))])
   \<and> id' (status zero_status_result) = 0
   \<and> poll demo_service zero_then_accepted (JString (js ''abc'')) 0
        [submit_request demo_service 71 (js ''MQ=='') []]
     = (formatOutput accepted_result,
        [submit_request demo_service 71 (js ''MQ=='') [], result_request demo_service (JString (js ''abc'')),
         result_request demo_service (JString (js ''abc''))])
   \<and> poll demo_service zero_then_accepted (JString (js ''abc'')) 0
        [submit_request demo_service 71 (js ''MQ=='') []]
     \<noteq> (formatOutput zero_status_result,
        [submit_request demo_service 71 (js ''MQ=='') [], result_request demo_service (JString (js ''abc''))])"
proof -
  have z: "id' (status zero_status_result) = 0" by (simp add: zero_status_result_def)
  have a: "id' (status accepted_result) = 3" by (simp add: accepted_result_def)
  have "poll demo_service zero_then_accepted (JString (js ''abc'')) 0
        [submit_request demo_service 71 (js ''MQ=='') []]
     = poll demo_service zero_then_accepted (JString (js ''abc'')) 1
        [submit_request demo_service 71 (js ''MQ=='') [], result_request demo_service (JString (js ''abc''))]"
    by (subst poll.simps) (simp add: max_30 getResult_zero_first z)
  also have "\<dots> = (formatOutput accepted_result,
        [submit_request demo_service 71 (js ''MQ=='') [], result_request demo_service (JString (js ''abc'')),
         result_request demo_service (JString (js ''abc''))])"
    by (subst poll.simps) (simp add: max_30 getResult_accepted_second a)
  finally show ?thesis
    using getResult_zero_first z by simp
qed

lemma poll_skip:
  assumes "\<forall>j<k. \<exists>r. fst (getResult this w token (log @ replicate j (result_request this token))) = Inr r
              \<and> id' (status r) \<le> 2"
    and "attempts + k \<le> maxAttempts"
  shows "poll this w token attempts log =
           poll this w token (attempts + k) (log @ replicate k (result_request this token))"
  using assms
proof (induction k arbitrary: attempts log)
  case 0
  then show ?case by simp
next
  case (Suc k)
  from Suc.prems(1) obtain r where r: "fst (getResult this w token log) = Inr r" "id' (status r) \<le> 2"
    by fastforce
  obtain log' where g: "getResult this w token log = (Inr r, log')"
    using r(1) by (cases "getResult this w token log") simp
  have log': "log' = log @ [result_request this token]"
    using g by (rule getResult_log)
  have step: "poll this w token attempts log = poll this w token (Suc attempts) log'"
    using Suc.prems(2) r(2) by (subst poll.simps) (simp add: g)
  have "\<forall>j<k. \<exists>r. fst (getResult this w token (log' @ replicate j (result_request this token))) = Inr r
              \<and> id' (status r) \<le> 2"
  proof (intro allI impI)
    fix j assume "j < k"
    then have "Suc j < Suc k" by simp
    with Suc.prems(1) have "\<exists>r. fst (getResult this w token (log @ replicate (Suc j) (result_request this token))) = Inr r
              \<and> id' (status r) \<le> 2" by blast
    then show "\<exists>r. fst (getResult this w token (log' @ replicate j (result_request this token))) = Inr r
              \<and> id' (status r) \<le> 2"
      by (simp add: log')
  qed
  moreover have "Suc attempts + k \<le> maxAttempts" using Suc.prems(2) by simp
  ultimately have "poll this w token (Suc attempts) log' =
      poll this w token (Suc attempts + k) (log' @ replicate k (result_request this token))"
    by (rule Suc.IH)
  then show ?case by (simp add: step log' replicate_app_Cons_same)
qed

lemma poll_raises:
  assumes "attempts < maxAttempts"
    and "getResult this w token log = (Inl e, log')
         \<or> (\<exists>result. getResult this w token log = (Inr result, log')
               \<and> 2 < id' (status result) \<and> formatOutput result = Inl e)"
  shows "poll this w token attempts log = (Inl e, log')"
  using assms by (subst poll.simps) auto

lemma poll_raises_later:
  assumes "k < maxAttempts"
    and "\<forall>j<k. \<exists>r. fst (getResult this w token (log @ replicate j (result_request this token))) = Inr r
              \<and> id' (status r) \<le> 2"
    and "getResult this w token (log @ replicate k (result_request this token)) = (Inl e, log')
         \<or> (\<exists>result. getResult this w token (log @ replicate k (result_request this token)) = (Inr result, log')
               \<and> 2 < id' (status result) \<and> formatOutput result = Inl e)"
  shows "poll this w token 0 log = (Inl e, log')"
proof -
  have "poll this w token 0 log = poll this w token k (log @ replicate k (result_request this token))"
    using poll_skip [OF assms(2), of 0] assms(1) by simp
  then show ?thesis using poll_raises [OF assms(1) assms(3)] by simp
qed

text \<open>
  Claim C7. Every failure below \<open>executeCode\<close> is caught by it: a failure of
  \<open>submitCode\<close>, and, after a submission that returned a token and \<open>k\<close> polls that kept the
  loop going, a failure of \<open>getResult\<close> on the next poll or of \<open>formatOutput\<close> on the result
  that poll fetched. When the message of the failure includes \<open>401\<close>, \<open>403\<close>, \<open>429\<close> or
  \<open>API key not configured\<close> (tested in this order) \<open>executeCode\<close> returns the guidance text
  of the first that matches; when it includes none of them the same exception leaves
  \<open>executeCode\<close>. The requests issued are those of the failing operation.
\<close>

theorem executeCode_translates_failures:
  assumes "submitCode this w languageId sourceCode stdin log = (Inl e, log')
           \<or> (\<exists>token log1 k.
                  submitCode this w languageId sourceCode stdin log = (Inr token, log1)
                  \<and> k < maxAttempts
                  \<and> (\<forall>j<k. \<exists>r. fst (getResult this w token
                                         (log1 @ replicate j (result_request this token))) = Inr r
                                 \<and> id' (status r) \<le> 2)
                  \<and> (getResult this w token (log1 @ replicate k (result_request this token)) = (Inl e, log')
                       \<or> (\<exists>result. getResult this w token (log1 @ replicate k (result_request this token))
                                       = (Inr result, log')
                                     \<and> 2 < id' (status result) \<and> formatOutput result = Inl e)))"
  shows "executeCode this w languageId sourceCode stdin log =
     (if string_includes (message w e) (js ''401'')
      then Inr (js ''Error: Invalid API key. Please check your Judge0 API configuration.'')
      else if string_includes (message w e) (js ''403'')
      then Inr (js ''Error: API access forbidden. Please check your Judge0 subscription.'')
      else if string_includes (message w e) (js ''429'')
      then Inr (js ''Error: Rate limit exceeded. Please try again later.'')
      else if string_includes (message w e) (js ''API key not configured'')
      then Inr (js ''Error: Judge0 API key not configured. Please add NEXT_PUBLIC_JUDGE0_API_KEY to your .env.local file.'')
      else Inl e,
      log')"
proof -
  have "executeCode_try this w languageId sourceCode stdin log = (Inl e, log')"
    using assms
  proof
    assume "submitCode this w languageId sourceCode stdin log = (Inl e, log')"
    then show ?thesis by (simp add: executeCode_try_def)
  next
    assume "\<exists>token log1 k.
                  submitCode this w languageId sourceCode stdin log = (Inr token, log1)
                  \<and> k < maxAttempts
                  \<and> (\<forall>j<k. \<exists>r. fst (getResult this w token
                                         (log1 @ replicate j (result_request this token))) = Inr r
                                 \<and> id' (status r) \<le> 2)
                  \<and> (getResult this w token (log1 @ replicate k (result_request this token)) = (Inl e, log')
                       \<or> (\<exists>result. getResult this w token (log1 @ replicate k (result_request this token))
                                       = (Inr result, log')
                                     \<and> 2 < id' (status result) \<and> formatOutput result = Inl e))"
    then show ?thesis
    proof (elim exE conjE)
      fix token log1 k
      assume s: "submitCode this w languageId sourceCode stdin log = (Inr token, log1)"
        and k: "k < maxAttempts"
        and q: "\<forall>j<k. \<exists>r. fst (getResult this w token
                                         (log1 @ replicate j (result_request this token))) = Inr r
                                 \<and> id' (status r) \<le> 2"
        and f: "getResult this w token (log1 @ replicate k (result_request this token)) = (Inl e, log')
                       \<or> (\<exists>result. getResult this w token (log1 @ replicate k (result_request this token))
                                       = (Inr result, log')
                                     \<and> 2 < id' (status result) \<and> formatOutput result = Inl e)"
      have "poll this w token 0 log1 = (Inl e, log')"
        by (rule poll_raises_later [OF k q f])
      then show ?thesis using s by (simp add: executeCode_try_def)
    qed
  qed
  then show ?thesis
    by (simp add: executeCode_def executeCode_catch_def)
qed

lemma rejection_unauthorized:
  "rejection_message unauthorized 401 (js ''message'') = js ''HTTP error! status: 401 - Invalid API key''"
proof -
  have p: "JSON_parse unauthorized (js ''message'') =
             Inr (JObject [(js ''message'', JString (js ''Invalid API key''))])"
    by (simp add: unauthorized_def scripted_simps demo_parse_def js_def)
  have n: "number_to_string 401 = js ''401''"
    by (simp add: number_to_string_def js_def digit_char_def nat_digits.simps)
  have m: "map_of [(js ''message'', JString (js ''Invalid API key''))] (js ''error'') = None"
    "map_of [(js ''message'', JString (js ''Invalid API key''))] (js ''message'')
       = Some (JString (js ''Invalid API key''))"
    by (simp_all add: js_def)
  have ne: "js ''Invalid API key'' \<noteq> []" by (simp add: js_def)
  show ?thesis
    unfolding rejection_message_object [OF p] m append_member_string(2) [OF ne] append_member_string(1)
    by (simp add: n js_def)
qed

lemma submit_unauthorized:
  "submitCode demo_service unauthorized 71 (js ''1'') [] [] =
     (Inl (Error (js ''HTTP error! status: 401 - Invalid API key'')),
      [submit_request demo_service 71 (js ''MQ=='') []])"
proof -
  have "respond unauthorized [] (submit_request demo_service 71 (js ''MQ=='') []) = Response 401 (js ''message'')"
    by (simp add: unauthorized_def scripted_simps)
  from submitCode_response [OF demo_key_nonempty encode_1 _ this, of "[]"]
  show ?thesis by (simp add: response_ok_def rejection_unauthorized)
qed

lemma includes_401:
  "string_includes (js ''HTTP error! status: 401 - Invalid API key'') (js ''401'')"
  "string_includes (js ''HTTP error! status: 401 - message'') (js ''401'')"
  by (simp_all add: js_def)

lemma platform_error_plain:
  "\<not> string_includes (js ''platform error'') (js ''401'')"
  "\<not> string_includes (js ''platform error'') (js ''403'')"
  "\<not> string_includes (js ''platform error'') (js ''429'')"
  "\<not> string_includes (js ''platform error'') (js ''API key not configured'')"
  by (simp_all add: js_def)

lemma submit_token:
  assumes "respond w [] (submit_request demo_service 71 (js ''MQ=='') []) = Response 201 (js ''token abc'')"
    and "JSON_parse w = demo_parse"
  shows "submitCode demo_service w 71 (js ''1'') [] [] =
     (Inr (JString (js ''abc'')), [submit_request demo_service 71 (js ''MQ=='') []])"
proof -
  have "demo_parse (js ''token abc'') = Inr (JObject [(js ''token'', JString (js ''abc''))])"
    by (simp add: demo_parse_def)
  then show ?thesis
    using submitCode_response [OF demo_key_nonempty encode_1 _ assms(1), of "[]"]
    by (simp add: response_ok_def assms(2) get_property_def truthy_def js_def)
qed

lemma getResult_queued_first:
  "getResult demo_service queued_then_unauthorized (JString t) [s] =
     (Inr queued_result, [s, result_request demo_service (JString t)])"
  by (simp add: getResult_def demo_key_nonempty queued_then_unauthorized_def fetch_scripted
      demo_token_request_method response_ok_def scripted_simps demo_parse_result_def js_def)

lemma getResult_unauthorized_second:
  "getResult demo_service queued_then_unauthorized (JString t) [s, p] =
     (Inl (Error (js ''HTTP error! status: 401 - message'')), [s, p, result_request demo_service (JString t)])"
  by (simp add: getResult_def demo_key_nonempty queued_then_unauthorized_def fetch_scripted
      demo_token_request_method response_ok_def scripted_simps number_to_string_def js_def
      digit_char_def nat_digits.simps)

lemma getResult_garbled:
  "getResult demo_service garbled_payload (JString t) [s] =
     (Inr garbled_result, [s, result_request demo_service (JString t)])"
  by (simp add: getResult_def demo_key_nonempty garbled_payload_def fetch_scripted
      demo_token_request_method response_ok_def scripted_simps demo_parse_result_def js_def)

lemma formatOutput_garbled: "formatOutput garbled_result = Inl (InvalidCharacterError Atob)"
proof -
  have "atob (js ''!'') = Inl (InvalidCharacterError Atob)"
    by (simp add: atob_def ascii_whitespace_def strip_padding_def pad_def js_def)
  then have "decodeBase64 (js ''!'') = Inl (InvalidCharacterError Atob)"
    by (simp add: decodeBase64_def)
  moreover have "js ''!'' \<noteq> []" by (simp add: js_def)
  ultimately show ?thesis
    by (simp add: formatOutput_def garbled_result_def append_decoded_def truthy_string_def)
qed

theorem executeCode_translates_failures_witness:
  "executeCode demo_service unauthorized 71 (js ''1'') [] [] =
     (Inr (js ''Error: Invalid API key. Please check your Judge0 API configuration.''),
      [submit_request demo_service 71 (js ''MQ=='') []])
   \<and> executeCode demo_service queued_then_unauthorized 71 (js ''1'') [] [] =
     (Inr (js ''Error: Invalid API key. Please check your Judge0 API configuration.''),
      [submit_request demo_service 71 (js ''MQ=='') [],
       result_request demo_service (JString (js ''abc'')),
       result_request demo_service (JString (js ''abc''))])
   \<and> executeCode demo_service garbled_payload 71 (js ''1'') [] [] =
     (Inl (InvalidCharacterError Atob),
      [submit_request demo_service 71 (js ''MQ=='') [],
       result_request demo_service (JString (js ''abc''))])"
proof -
  let ?s = "submit_request demo_service 71 (js ''MQ=='') []"
  let ?p = "result_request demo_service (JString (js ''abc''))"
  have one: "Suc 0 < maxAttempts" and zero: "(0::nat) < maxAttempts"
    by (simp_all add: max_30)
  have a: "executeCode demo_service unauthorized 71 (js ''1'') [] [] =
     (Inr (js ''Error: Invalid API key. Please check your Judge0 API configuration.''), [?s])"
    using executeCode_translates_failures [of demo_service unauthorized 71 "js ''1''" "[]" "[]"
        "Error (js ''HTTP error! status: 401 - Invalid API key'')" "[?s]"]
    by (simp add: submit_unauthorized message_def includes_401)
  have sq: "submitCode demo_service queued_then_unauthorized 71 (js ''1'') [] [] =
              (Inr (JString (js ''abc'')), [?s])"
    by (rule submit_token) (simp_all add: queued_then_unauthorized_def scripted_simps submit_request_def)
  have hq: "\<exists>token log1 k.
      submitCode demo_service queued_then_unauthorized 71 (js ''1'') [] [] = (Inr token, log1)
      \<and> k < maxAttempts
      \<and> (\<forall>j<k. \<exists>r. fst (getResult demo_service queued_then_unauthorized token
                             (log1 @ replicate j (result_request demo_service token))) = Inr r
                     \<and> id' (status r) \<le> 2)
      \<and> (getResult demo_service queued_then_unauthorized token
            (log1 @ replicate k (result_request demo_service token))
            = (Inl (Error (js ''HTTP error! status: 401 - message'')), [?s, ?p, ?p])
           \<or> (\<exists>result. getResult demo_service queued_then_unauthorized token
                           (log1 @ replicate k (result_request demo_service token))
                           = (Inr result, [?s, ?p, ?p])
                         \<and> 2 < id' (status result)
                         \<and> formatOutput result = Inl (Error (js ''HTTP error! status: 401 - message''))))"
    apply (rule exI [of _ "JString (js ''abc'')"], rule exI [of _ "[?s]"], rule exI [of _ 1])
    apply (simp add: sq one getResult_queued_first getResult_unauthorized_second queued_result_def)
    done
  have b: "executeCode demo_service queued_then_unauthorized 71 (js ''1'') [] [] =
     (Inr (js ''Error: Invalid API key. Please check your Judge0 API configuration.''), [?s, ?p, ?p])"
    using executeCode_translates_failures [OF disjI2, OF hq]
    by (simp add: message_def includes_401)
  have garbled_status: "id' (status garbled_result) = 3"
    by (simp add: garbled_result_def)
  have sg: "submitCode demo_service garbled_payload 71 (js ''1'') [] [] =
              (Inr (JString (js ''abc'')), [?s])"
    by (rule submit_token) (simp_all add: garbled_payload_def scripted_simps submit_request_def)
  have hg: "\<exists>token log1 k.
      submitCode demo_service garbled_payload 71 (js ''1'') [] [] = (Inr token, log1)
      \<and> k < maxAttempts
      \<and> (\<forall>j<k. \<exists>r. fst (getResult demo_service garbled_payload token
                             (log1 @ replicate j (result_request demo_service token))) = Inr r
                     \<and> id' (status r) \<le> 2)
      \<and> (getResult demo_service garbled_payload token
            (log1 @ replicate k (result_request demo_service token))
            = (Inl (InvalidCharacterError Atob), [?s, ?p])
           \<or> (\<exists>result. getResult demo_service garbled_payload token
                           (log1 @ replicate k (result_request demo_service token))
                           = (Inr result, [?s, ?p])
                         \<and> 2 < id' (status result)
                         \<and> formatOutput result = Inl (InvalidCharacterError Atob)))"
    apply (rule exI [of _ "JString (js ''abc'')"], rule exI [of _ "[?s]"], rule exI [of _ 0])
    apply (simp add: sg zero getResult_garbled formatOutput_garbled garbled_status)
    done
  have c: "executeCode demo_service garbled_payload 71 (js ''1'') [] [] =
     (Inl (InvalidCharacterError Atob), [?s, ?p])"
    using executeCode_translates_failures [OF disjI2, OF hg]
    by (simp add: message_def garbled_payload_def scripted_def platform_error_plain)
  show ?thesis using a b c by (intro conjI)
qed

section \<open>Properties of the template loader\<close>

lemma loadTemplate_eq:
  "loadTemplate w language log =
     (case respond w log (template_request language) of
        Rejected m \<Rightarrow> None
      | Response st responseText \<Rightarrow>
          if response_ok st
          then (case JSON_parse_template w responseText of Inl e \<Rightarrow> None | Inr data \<Rightarrow> data)
          else None,
      log @ [template_request language])"
  by (simp add: loadTemplate_def fetch_def split: fetch_result.splits sum.splits)

lemma load_each_eq:
  "load_each w langs templates log =
     (templates @ List.map_filter id (loaded w langs log), log @ map template_request langs)"
proof (induction langs arbitrary: templates log)
  case Nil
  then show ?case by (simp add: List.map_filter_simps)
next
  case (Cons lang langs)
  show ?case
  proof (cases "fst (loadTemplate w lang log)")
    case None
    then have "loadTemplate w lang log = (None, log @ [template_request lang])"
      by (metis loadTemplate_eq fst_conv)
    then show ?thesis using None by (simp add: Cons.IH List.map_filter_simps loadTemplate_eq)
  next
    case (Some t)
    then have "loadTemplate w lang log = (Some t, log @ [template_request lang])"
      by (metis loadTemplate_eq fst_conv)
    then show ?thesis using Some by (simp add: Cons.IH List.map_filter_simps loadTemplate_eq)
  qed
qed


lemma loaded_nth:
  "loaded w langs log =
     map (\<lambda>k. fst (loadTemplate w (langs ! k) (log @ map template_request (take k langs))))
       [0..<length langs]"
proof (induction langs arbitrary: log)
  case Nil
  then show ?case by simp
next
  case (Cons lang langs)
  have "[0..<length (lang # langs)] = 0 # map Suc [0..<length langs]"
    by (simp add: upt_conv_Cons map_Suc_upt del: upt_Suc)
  then show ?case
    by (simp add: Cons.IH loadTemplate_eq comp_def del: upt_Suc)
qed

lemma length_languages: "length languages = 6"
  by (simp add: languages_def)

text \<open>
  Claim C9. \<open>loadTemplate\<close> raises nothing: it issues one request and yields no descriptor
  when the request is rejected, when the status is not ok, when the body does not parse
  or when the body is \<open>null\<close>, and the parsed descriptor otherwise. \<open>loadAllTemplates\<close>
  issues the six requests in the order of the languages, whatever fails, and returns
  exactly the descriptors that the six loads yielded, in that order; the load of the
  \<open>k\<close>-th language is the one issued after the \<open>k\<close> requests before it.
\<close>

theorem loadAllTemplates_skips_failures:
  "loadTemplate w language log =
     (case respond w log (template_request language) of
        Rejected m \<Rightarrow> None
      | Response st responseText \<Rightarrow>
          if response_ok st
          then (case JSON_parse_template w responseText of Inl e \<Rightarrow> None | Inr data \<Rightarrow> data)
          else None,
      log @ [template_request language])
   \<and> loadAllTemplates w log =
       (List.map_filter id (loaded w languages log), log @ map template_request languages)
   \<and> loaded w languages log =
       map (\<lambda>k. fst (loadTemplate w (languages ! k) (log @ map template_request (take k languages))))
         [0..<6]"
  using loadTemplate_eq [of w language log] load_each_eq [of w languages "[]" log]
    loaded_nth [of w languages log]
  by (simp add: loadAllTemplates_def length_languages)

theorem loadAllTemplates_skips_failures_witness:
  "loadAllTemplates template_store [] =
     ([demo_template (js ''/templates/javascript.json''), demo_template (js ''/templates/cpp.json''),
       demo_template (js ''/templates/csharp.json''), demo_template (js ''/templates/go.json'')],
      map template_request languages)"
proof -
  have "loaded template_store languages [] =
     [Some (demo_template (js ''/templates/javascript.json'')), None, None,
      Some (demo_template (js ''/templates/cpp.json'')),
      Some (demo_template (js ''/templates/csharp.json'')),
      Some (demo_template (js ''/templates/go.json''))]"
    by (simp add: languages_def loadTemplate_eq template_store_def scripted_simps template_request_def
        response_ok_def demo_parse_template_def js_def)
  then show ?thesis
    using loadAllTemplates_skips_failures [of template_store "[]" "[]", THEN conjunct2, THEN conjunct1]
    by (simp add: List.map_filter_simps)
qed

section \<open>Properties of the transport codec\<close>

subsection \<open>atob undoes btoa\<close>

lemma base64_value_char: "n < 64 \<Longrightarrow> base64_value (base64_char n) = Some n"
proof -
  have "\<forall>n \<in> set [0..<64]. base64_value (base64_char n) = Some n"
    unfolding base64_char_def base64_alphabet_def js_def base64_value_def
    by (simp add: upt_rec)
  then show "n < 64 \<Longrightarrow> base64_value (base64_char n) = Some n" by simp
qed

lemma base64_char_not_pad: "n < 64 \<Longrightarrow> base64_char n \<noteq> pad"
  using base64_value_char [of n] by (auto simp: base64_value_def pad_def)

lemma base64_char_not_space: "n < 64 \<Longrightarrow> \<not> ascii_whitespace (base64_char n)"
  using base64_value_char [of n] by (auto simp: base64_value_def ascii_whitespace_def Let_def split: if_splits)

lemma pad_not_space: "\<not> ascii_whitespace pad"
  by (simp add: ascii_whitespace_def pad_def)


lemma word_of_unat [simp]: "of_nat (unat c) = (c :: code_unit)"
  by simp

lemma unat_of_small [simp]: "n < 65536 \<Longrightarrow> unat (of_nat n :: code_unit) = n"
  by (simp add: unat_of_nat)

lemma bytes_simps [simp]:
  "bytes []" "bytes (b # bs) \<longleftrightarrow> b < 256 \<and> bytes bs" "bytes (xs @ ys) \<longleftrightarrow> bytes xs \<and> bytes ys"
  by (auto simp: bytes_def)

lemma sextet_bounds:
  "a < 256 \<Longrightarrow> a div 4 < (64::nat)"
  "a mod 4 * 16 < (64::nat)"
  "b < 256 \<Longrightarrow> a mod 4 * 16 + b div 16 < (64::nat)"
  "b mod 16 * 4 < (64::nat)"
  "c < 256 \<Longrightarrow> b mod 16 * 4 + c div 64 < (64::nat)"
  "c mod 64 < (64::nat)"
proof -
  have a4: "a mod 4 < 4" and b16: "b mod 16 < 16" by simp_all
  show "a < 256 \<Longrightarrow> a div 4 < 64" by simp
  show "a mod 4 * 16 < 64" using a4 by linarith
  show "b < 256 \<Longrightarrow> a mod 4 * 16 + b div 16 < 64"
  proof -
    assume "b < 256"
    then have "b div 16 < 16" by simp
    then show ?thesis using a4 by linarith
  qed
  show "b mod 16 * 4 < 64" using b16 by linarith
  show "c < 256 \<Longrightarrow> b mod 16 * 4 + c div 64 < 64"
  proof -
    assume "c < 256"
    then have "c div 64 < 4" by simp
    then show ?thesis using b16 by linarith
  qed
  show "c mod 64 < 64" by simp
qed

lemma small_div [simp]:
  "b < 256 \<Longrightarrow> b div 16 div 16 = (0::nat)"
  "b < 256 \<Longrightarrow> b div 16 mod 16 = b div 16"
  "c < 256 \<Longrightarrow> c div 64 div 4 = (0::nat)"
  "c < 256 \<Longrightarrow> c div 64 mod 4 = c div 64"
proof -
  show "b < 256 \<Longrightarrow> b div 16 div 16 = 0"
  proof -
    assume "b < 256"
    then have "b div 16 < 16" by simp
    then show ?thesis by (rule div_less)
  qed
  show "b < 256 \<Longrightarrow> b div 16 mod 16 = b div 16"
  proof -
    assume "b < 256"
    then have "b div 16 < 16" by simp
    then show ?thesis by (rule mod_less)
  qed
  show "c < 256 \<Longrightarrow> c div 64 div 4 = 0"
  proof -
    assume "c < 256"
    then have "c div 64 < 4" by simp
    then show ?thesis by (rule div_less)
  qed
  show "c < 256 \<Longrightarrow> c div 64 mod 4 = c div 64"
  proof -
    assume "c < 256"
    then have "c div 64 < 4" by simp
    then show ?thesis by (rule mod_less)
  qed
qed

lemma btoa_bytes: "bytes bs \<Longrightarrow> btoa (map of_nat bs) = Inr (base64_encode bs)"
proof -
  assume b: "bytes bs"
  then have "\<not> list_ex (\<lambda>c. 0xFF < unat c) (map of_nat bs :: jsstring)"
    by (induction bs) auto
  moreover have "map unat (map of_nat bs :: jsstring) = bs"
    using b by (induction bs) auto
  ultimately show ?thesis by (simp add: btoa_def)
qed

lemma base64_encode_body:
  "base64_encode bs = base64_body bs @ replicate ((3 - length bs mod 3) mod 3) pad"
proof (induction bs rule: base64_encode.induct)
  case (4 a b c rest)
  have "Suc (Suc (Suc (length rest))) mod 3 = length rest mod 3"
    by presburger
  then have "length (a # b # c # rest) mod 3 = length rest mod 3"
    by simp
  then show ?case using 4 by simp
qed (simp_all add: numeral_2_eq_2)

lemma length_base64_encode: "length (base64_encode bs) mod 4 = 0"
  by (induction bs rule: base64_encode.induct) simp_all

lemma length_base64_body: "length (base64_body bs) mod 4 \<noteq> 1"
  by (induction bs rule: base64_body.induct) simp_all

lemma base64_body_chars:
  "bytes bs \<Longrightarrow> list_all (\<lambda>c. base64_value c \<noteq> None \<and> c \<noteq> pad \<and> \<not> ascii_whitespace c) (base64_body bs)"
  by (induction bs rule: base64_body.induct)
     (simp_all add: sextet_bounds base64_value_char base64_char_not_pad base64_char_not_space)

lemma base64_decode_body:
  "bytes bs \<Longrightarrow> base64_decode (map (\<lambda>c. the (base64_value c)) (base64_body bs)) = bs"
  by (induction bs rule: base64_body.induct)
     (simp_all add: sextet_bounds base64_value_char)


lemma last_list_all: "list_all P xs \<Longrightarrow> xs \<noteq> [] \<Longrightarrow> P (last xs)"
  by (induction xs) (auto split: if_splits)

lemma strip_padding_body:
  assumes "list_all (\<lambda>c. c \<noteq> pad) core" and "k \<le> 2"
    and "length (core @ replicate k pad) mod 4 = 0"
  shows "strip_padding (core @ replicate k pad) = core"
proof -
  have nl: "core \<noteq> [] \<Longrightarrow> last core \<noteq> pad"
    using last_list_all [OF assms(1)] by simp
  from assms(2) consider "k = 0" | "k = 1" | "k = 2" by linarith
  then show ?thesis
  proof cases
    case 1
    then show ?thesis using nl by (auto simp: strip_padding_def)
  next
    case 2
    then show ?thesis using nl assms(3) by (auto simp: strip_padding_def butlast_append)
  next
    case 3
    then have "core @ replicate k pad = (core @ [pad]) @ [pad]" by (simp add: numeral_2_eq_2)
    then show ?thesis using assms(3) by (simp add: strip_padding_def butlast_append)
  qed
qed

lemma atob_base64_encode:
  assumes "bytes bs"
  shows "atob (base64_encode bs) = Inr (map of_nat bs)"
proof -
  let ?k = "(3 - length bs mod 3) mod 3"
  have enc: "base64_encode bs = base64_body bs @ replicate ?k pad"
    by (rule base64_encode_body)
  have chars: "list_all (\<lambda>c. base64_value c \<noteq> None \<and> c \<noteq> pad \<and> \<not> ascii_whitespace c) (base64_body bs)"
    using assms by (rule base64_body_chars)
  have "filter (\<lambda>c. \<not> ascii_whitespace c) (base64_body bs) = base64_body bs"
    using chars by (simp add: list_all_iff)
  then have f: "filter (\<lambda>c. \<not> ascii_whitespace c) (base64_encode bs) = base64_encode bs"
    unfolding enc by (simp add: pad_not_space)
  have "list_all (\<lambda>c. c \<noteq> pad) (base64_body bs)"
    using chars by (simp add: list_all_iff)
  moreover have "?k \<le> 2" by simp
  moreover have "length (base64_body bs @ replicate ?k pad) mod 4 = 0"
    using length_base64_encode [of bs] unfolding enc .
  ultimately have "strip_padding (base64_body bs @ replicate ?k pad) = base64_body bs"
    by (rule strip_padding_body)
  then have sp: "strip_padding (base64_encode bs) = base64_body bs"
    unfolding enc .
  have "\<not> list_ex (\<lambda>c. base64_value c = None) (base64_body bs)"
    using chars by (simp add: list_all_iff list_ex_iff)
  then show ?thesis
    unfolding atob_def f sp
    using length_base64_body [of bs] base64_decode_body [OF assms] by simp
qed

subsection \<open>unescape after encodeURIComponent gives the UTF-8 bytes\<close>

lemma hex_value_digit: "n < 16 \<Longrightarrow> hex_value (hex_digit n) = Some n"
proof -
  have "\<forall>n \<in> set [0..<16]. hex_value (hex_digit n) = Some n"
    unfolding hex_digit_def js_def hex_value_def by (simp add: upt_rec)
  then show "n < 16 \<Longrightarrow> hex_value (hex_digit n) = Some n" by simp
qed

lemma hex_digit_is_hex: "n < 16 \<Longrightarrow> is_hex (hex_digit n)"
  by (simp add: is_hex_def hex_value_digit)

lemma hex_digit_not_u: "n < 16 \<Longrightarrow> hex_digit n \<noteq> 0x75"
  using hex_value_digit [of n] by (auto simp: hex_value_def)

lemma hex2_parts:
  assumes "b < 256"
  shows "hex_number (hex2 b) = b" and "list_all is_hex (hex2 b)" and "hd (hex2 b @ t) \<noteq> 0x75"
    and "parse_hex_octet (hex2 b @ t) = Some b" and "length (hex2 b) = 2"
proof -
  have d: "b div 16 < 16" and m: "b mod 16 < 16" using assms by simp_all
  show "hex_number (hex2 b) = b"
    by (simp add: hex_number_def hex2_def hex_value_digit d m)
  show "list_all is_hex (hex2 b)"
    by (simp add: hex2_def hex_digit_is_hex d m)
  show "hd (hex2 b @ t) \<noteq> 0x75"
    by (simp add: hex2_def hex_digit_not_u d)
  show "parse_hex_octet (hex2 b @ t) = Some b"
    by (simp add: parse_hex_octet_def hex2_def hex_value_digit d m)
  show "length (hex2 b) = 2" by (simp add: hex2_def)
qed

declare unescape.simps(2) [simp del] decodeURIComponent.simps(2) [simp del]

lemma take_drop_hex2:
  "b < 256 \<Longrightarrow> take 2 (hex2 b @ t) = hex2 b"
  "b < 256 \<Longrightarrow> drop 2 (hex2 b @ t) = t"
  by (simp_all add: hex2_def)

lemma unescape_percent_octet:
  assumes "b < 256"
  shows "unescape (percent # hex2 b @ t) = of_nat b # unescape t"
  by (subst unescape.simps(2))
     (simp add: hex2_parts [OF assms] take_drop_hex2 [OF assms])

lemma unescape_percent_octets:
  "bytes bs \<Longrightarrow> unescape (percent_octets bs @ t) = map of_nat bs @ unescape t"
  by (induction bs) (simp_all add: percent_octets_def unescape_percent_octet)

lemma unescape_plain: "c \<noteq> percent \<Longrightarrow> unescape (c # t) = c # unescape t"
  by (subst unescape.simps(2)) simp

lemma uri_unescaped_ascii: "uri_unescaped c \<Longrightarrow> unat c < 128 \<and> c \<noteq> percent"
  by (auto simp: uri_unescaped_def js_def percent_def)

lemma escape_unescaped_ascii: "escape_unescaped c \<Longrightarrow> unat c < 128 \<and> c \<noteq> percent"
  by (auto simp: escape_unescaped_def js_def percent_def)


lemma mod_64_small [simp]: "x mod 64 < (128::nat)" "x mod 64 < (64::nat)"
proof -
  show "x mod 64 < 64" by simp
  then show "x mod 64 < 128" by linarith
qed

lemma utf8_encode_bytes: "v < 0x110000 \<Longrightarrow> bytes (utf8_encode v)"
  by (simp add: utf8_encode_def div_less_iff_less_mult)

lemma surrogate_pair_range:
  assumes "is_lead_surrogate c" "is_trail_surrogate d"
  shows "0x10000 \<le> surrogate_pair c d" and "surrogate_pair c d < 0x110000"
proof -
  have "unat c - 0xD800 \<le> 1023" using assms(1) unfolding is_lead_surrogate_def by linarith
  then have "(unat c - 0xD800) * 0x400 \<le> 1023 * 0x400" by (rule mult_le_mono1)
  moreover have "unat d - 0xDC00 \<le> 1023" using assms(2) unfolding is_trail_surrogate_def by linarith
  ultimately show "surrogate_pair c d < 0x110000" unfolding surrogate_pair_def by linarith
  show "0x10000 \<le> surrogate_pair c d" unfolding surrogate_pair_def by linarith
qed

lemma unat_code_unit: "unat (c :: code_unit) < 65536"
  using unsigned_less [of c, where 'a = nat] by simp

lemma utf8_string_bytes: "well_formed s \<Longrightarrow> bytes (utf8_string s)"
proof (induction s rule: well_formed.induct)
  case 1
  then show ?case by simp
next
  case (2 c rest)
  show ?case
  proof (cases "is_lead_surrogate c")
    case True
    with 2 show ?thesis
      by (auto simp: utf8_encode_bytes surrogate_pair_range split: list.splits)
  next
    case False
    have "unat c < 0x110000" using unat_code_unit [of c] by simp
    with False 2 show ?thesis by (simp add: utf8_encode_bytes)
  qed
qed

lemma uri_unescaped_plain:
  assumes "uri_unescaped c"
  shows "\<not> is_lead_surrogate c" and "\<not> is_trail_surrogate c" and "utf8_encode (unat c) = [unat c]"
  using uri_unescaped_ascii [OF assms]
  by (simp_all add: is_lead_surrogate_def is_trail_surrogate_def utf8_encode_def)

lemma encodeURIComponent_utf8:
  "well_formed s \<Longrightarrow>
   \<exists>t. encodeURIComponent s = Inr t \<and> unescape t = map of_nat (utf8_string s)"
proof (induction s rule: well_formed.induct)
  case 1
  then show ?case by simp
next
  case (2 c rest)
  show ?case
  proof (cases "uri_unescaped c")
    case True
    note p = uri_unescaped_plain [OF True] uri_unescaped_ascii [OF True]
    from 2 p obtain t where "encodeURIComponent rest = Inr t" "unescape t = map of_nat (utf8_string rest)"
      by auto
    then show ?thesis using True p by (simp add: unescape_plain)
  next
    case unesc: False
    show ?thesis
    proof (cases "is_lead_surrogate c")
      case True
      with 2(3) obtain d rest' where r: "rest = d # rest'" "is_trail_surrogate d" "well_formed rest'"
        by (auto split: list.splits)
      from 2(1) [OF True r(1)] r obtain t where t: "encodeURIComponent rest' = Inr t"
          "unescape t = map of_nat (utf8_string rest')"
        by auto
      have "bytes (utf8_encode (surrogate_pair c d))"
        using surrogate_pair_range [OF True r(2)] by (simp add: utf8_encode_bytes)
      then show ?thesis using unesc True r t by (simp add: unescape_percent_octets)
    next
      case False
      with 2 obtain t where t: "encodeURIComponent rest = Inr t"
          "unescape t = map of_nat (utf8_string rest)"
        by auto
      have "unat c < 0x110000" using unat_code_unit [of c] by simp
      then have "bytes (utf8_encode (unat c))" by (rule utf8_encode_bytes)
      moreover have "\<not> is_trail_surrogate c" using 2(3) False by simp
      ultimately show ?thesis using unesc False t by (simp add: unescape_percent_octets)
    qed
  qed
qed

lemma encodeBase64_utf8:
  assumes "well_formed s"
  shows "encodeBase64 s = Inr (base64_encode (utf8_string s))"
proof -
  from encodeURIComponent_utf8 [OF assms] obtain t where
    "encodeURIComponent s = Inr t" "unescape t = map of_nat (utf8_string s)" by blast
  then show ?thesis
    by (simp add: encodeBase64_def btoa_bytes [OF utf8_string_bytes [OF assms]])
qed

subsection \<open>decodeURIComponent after escape reads the UTF-8 bytes back\<close>

lemma utf8_recombine:
  "v div 64 * 64 + v mod 64 = (v::nat)"
  "v div 4096 * 4096 + v div 64 mod 64 * 64 + v mod 64 = (v::nat)"
  "v div 262144 * 262144 + v div 4096 mod 64 * 4096 + v div 64 mod 64 * 64 + v mod 64 = (v::nat)"
proof -
  show a: "v div 64 * 64 + v mod 64 = v" by simp
  have b: "v div 64 div 64 = v div 4096" by (simp add: div_mult2_eq [symmetric])
  have c: "v div 4096 div 64 = v div 262144" by (simp add: div_mult2_eq [symmetric])
  have d: "v div 64 div 64 * 64 + v div 64 mod 64 = v div 64" by simp
  have e: "v div 4096 div 64 * 64 + v div 4096 mod 64 = v div 4096" by simp
  show f: "v div 4096 * 4096 + v div 64 mod 64 * 64 + v mod 64 = v"
    using a d unfolding b by linarith
  show "v div 262144 * 262144 + v div 4096 mod 64 * 4096 + v div 64 mod 64 * 64 + v mod 64 = v"
    using f e unfolding c by linarith
qed


lemma escape_append: "escape (a @ b) = escape a @ escape b"
  by (simp add: escape_def)

lemma escape_high_byte:
  assumes "128 \<le> b" "b < 256"
  shows "escape_unit (of_nat b) = percent # hex2 b"
proof -
  have u: "unat (of_nat b :: code_unit) = b" using assms by simp
  then have "\<not> escape_unescaped (of_nat b)"
    using escape_unescaped_ascii [of "of_nat b"] assms by auto
  then show ?thesis using u assms by (simp add: escape_unit_def)
qed

lemma escape_high_bytes:
  "list_all (\<lambda>b. 128 \<le> b \<and> b < 256) bs \<Longrightarrow> escape (map of_nat bs) = percent_octets bs"
  by (induction bs) (simp_all add: escape_def percent_octets_def escape_high_byte)

lemma percent_octets_Cons: "percent_octets (b # bs) = percent # hex2 b @ percent_octets bs"
  by (simp add: percent_octets_def)

lemma length_hex2 [simp]: "length (hex2 b) = 2"
  by (simp add: hex2_def)

lemma length_percent_octets [simp]: "length (percent_octets bs) = 3 * length bs"
  by (induction bs) (simp_all add: percent_octets_def)

lemma continuation_percent_octets:
  "bytes bs \<Longrightarrow> continuation_octets (length bs) (percent_octets bs @ t) = Some bs"
proof (induction bs)
  case Nil
  then show ?case by (simp add: percent_octets_def)
next
  case (Cons b bs)
  then have b: "b < 256" and bs: "bytes bs" by simp_all
  show ?case
    using Cons.IH [OF bs]
    by (simp add: percent_octets_Cons hex2_parts(4) [OF b])
qed

lemma decode_plain:
  "c \<noteq> percent \<Longrightarrow> decodeURIComponent (c # t) = map_sum id ((#) c) (decodeURIComponent t)"
  by (subst decodeURIComponent.simps(2)) simp

lemma decode_octet_ascii:
  assumes "b < 128"
  shows "decodeURIComponent (percent # hex2 b @ t) = map_sum id ((#) (of_nat b)) (decodeURIComponent t)"
proof -
  have b: "b < 256" using assms by simp
  show ?thesis
    using assms
    by (subst decodeURIComponent.simps(2))
       (simp add: hex2_parts(4) [OF b] leading_ones_def)
qed

lemma decode_sequence:
  assumes "b0 < 256" and "bytes tl8" and "leading_ones b0 = Suc (length tl8)"
    and "tl8 \<noteq> []" and "length tl8 \<le> 3" and "utf8_decode (b0 # tl8) = Some v"
  shows "decodeURIComponent (percent_octets (b0 # tl8) @ t) =
           map_sum id ((@) (utf16_encode v)) (decodeURIComponent t)"
proof -
  have n: "length tl8 \<noteq> 0" "\<not> 3 < length tl8"
    using assms(4,5) by simp_all
  have c: "continuation_octets (length tl8) (percent_octets tl8 @ t) = Some tl8"
    by (rule continuation_percent_octets [OF assms(2)])
  show ?thesis
    unfolding percent_octets_Cons append_Cons append_assoc
    by (subst decodeURIComponent.simps(2))
       (simp add: hex2_parts(4) [OF assms(1)] assms(3) assms(4) n c assms(6))
qed


lemma mod_64_le [simp]: "x mod 64 \<le> (63::nat)"
proof -
  have "x mod 64 < 64" by simp
  then show ?thesis by linarith
qed

lemma append_single: "(@) [x] = (#) x"
  by (rule ext) simp

lemma decode_scalar_ascii:
  assumes "v < 128"
  shows "decodeURIComponent (escape (map of_nat (utf8_encode v)) @ t) =
           map_sum id ((@) (utf16_encode v)) (decodeURIComponent t)"
proof -
  have u: "unat (of_nat v :: code_unit) = v" using assms by simp
  have e: "utf8_encode v = [v]" "utf16_encode v = [of_nat v]"
    using assms by (simp_all add: utf8_encode_def utf16_encode_def)
  show ?thesis
  proof (cases "escape_unescaped (of_nat v :: code_unit)")
    case True
    then have "(of_nat v :: code_unit) \<noteq> percent" using escape_unescaped_ascii by blast
    then show ?thesis using True
      by (simp add: e escape_def escape_unit_def decode_plain append_single)
  next
    case False
    then show ?thesis using u assms
      by (simp add: e escape_def escape_unit_def decode_octet_ascii append_single)
  qed
qed

lemma utf8_two:
  assumes "128 \<le> v" "v < 2048"
  shows "utf8_encode v = [192 + v div 64, 128 + v mod 64]"
    and "leading_ones (192 + v div 64) = 2"
    and "utf8_decode [192 + v div 64, 128 + v mod 64] = Some v"
proof -
  have d: "2 \<le> v div 64" "v div 64 < 32"
    using assms by (simp_all add: div_less_iff_less_mult less_eq_div_iff_mult_less_eq)
  show "utf8_encode v = [192 + v div 64, 128 + v mod 64]"
    using assms by (simp add: utf8_encode_def)
  show "leading_ones (192 + v div 64) = 2"
    using d by (simp add: leading_ones_def)
  show "utf8_decode [192 + v div 64, 128 + v mod 64] = Some v"
    using assms by (simp add: utf8_decode_def is_continuation_def scalar_in_def)
qed

lemma utf8_three:
  assumes "2048 \<le> v" "v < 65536" "\<not> (0xD800 \<le> v \<and> v \<le> 0xDFFF)"
  shows "utf8_encode v = [224 + v div 4096, 128 + v div 64 mod 64, 128 + v mod 64]"
    and "leading_ones (224 + v div 4096) = 3"
    and "utf8_decode [224 + v div 4096, 128 + v div 64 mod 64, 128 + v mod 64] = Some v"
proof -
  have d: "v div 4096 < 16"
    using assms by (simp add: div_less_iff_less_mult)
  show "utf8_encode v = [224 + v div 4096, 128 + v div 64 mod 64, 128 + v mod 64]"
    using assms by (simp add: utf8_encode_def)
  show "leading_ones (224 + v div 4096) = 3"
    using d by (simp add: leading_ones_def)
  show "utf8_decode [224 + v div 4096, 128 + v div 64 mod 64, 128 + v mod 64] = Some v"
    using assms by (simp add: utf8_decode_def is_continuation_def scalar_in_def utf8_recombine)
qed

lemma utf8_four:
  assumes "65536 \<le> v" "v < 0x110000"
  shows "utf8_encode v =
           [240 + v div 262144, 128 + v div 4096 mod 64, 128 + v div 64 mod 64, 128 + v mod 64]"
    and "leading_ones (240 + v div 262144) = 4"
    and "utf8_decode [240 + v div 262144, 128 + v div 4096 mod 64, 128 + v div 64 mod 64, 128 + v mod 64]
           = Some v"
proof -
  have d: "v div 262144 < 5"
    using assms by (simp add: div_less_iff_less_mult)
  show "utf8_encode v =
           [240 + v div 262144, 128 + v div 4096 mod 64, 128 + v div 64 mod 64, 128 + v mod 64]"
    using assms by (simp add: utf8_encode_def)
  show "leading_ones (240 + v div 262144) = 4"
    using d by (simp add: leading_ones_def)
  show "utf8_decode [240 + v div 262144, 128 + v div 4096 mod 64, 128 + v div 64 mod 64, 128 + v mod 64]
           = Some v"
    using assms by (simp add: utf8_decode_def is_continuation_def scalar_in_def utf8_recombine)
qed

lemma decode_scalar_multi:
  assumes e: "utf8_encode v = b0 # tl8"
    and h: "list_all (\<lambda>b. 128 \<le> b \<and> b < 256) (b0 # tl8)"
    and l: "leading_ones b0 = Suc (length tl8)" "tl8 \<noteq> []" "length tl8 \<le> 3"
    and d: "utf8_decode (b0 # tl8) = Some v"
  shows "decodeURIComponent (escape (map of_nat (utf8_encode v)) @ t) =
           map_sum id ((@) (utf16_encode v)) (decodeURIComponent t)"
proof -
  have b: "b0 < 256" "bytes tl8" using h by (simp_all add: bytes_def list_all_iff)
  have "escape (map of_nat (utf8_encode v)) = percent_octets (b0 # tl8)"
    unfolding e using h by (rule escape_high_bytes)
  then show ?thesis
    using decode_sequence [OF b l d, of t] by simp
qed

lemma decode_scalar:
  assumes "v < 0x110000" and "\<not> (0xD800 \<le> v \<and> v \<le> 0xDFFF)"
  shows "decodeURIComponent (escape (map of_nat (utf8_encode v)) @ t) =
           map_sum id ((@) (utf16_encode v)) (decodeURIComponent t)"
proof -
  consider "v < 128" | "128 \<le> v" "v < 2048" | "2048 \<le> v" "v < 65536" | "65536 \<le> v"
    by linarith
  then show ?thesis
  proof cases
    case 1
    then show ?thesis by (rule decode_scalar_ascii)
  next
    case 2
    have d: "v div 64 < 32" using 2 by (simp add: div_less_iff_less_mult)
    show ?thesis
      by (rule decode_scalar_multi [OF utf8_two(1) [OF 2] _ _ _ _ utf8_two(3) [OF 2]])
         (use d in \<open>simp_all add: utf8_two(2) [OF 2]\<close>)
  next
    case 3
    have d: "v div 4096 < 16" using 3 by (simp add: div_less_iff_less_mult)
    show ?thesis
      by (rule decode_scalar_multi [OF utf8_three(1) [OF 3 assms(2)] _ _ _ _ utf8_three(3) [OF 3 assms(2)]])
         (use d in \<open>simp_all add: utf8_three(2) [OF 3 assms(2)]\<close>)
  next
    case 4
    have d: "v div 262144 < 5" using assms(1) by (simp add: div_less_iff_less_mult)
    show ?thesis
      by (rule decode_scalar_multi [OF utf8_four(1) [OF 4 assms(1)] _ _ _ _ utf8_four(3) [OF 4 assms(1)]])
         (use d in \<open>simp_all add: utf8_four(2) [OF 4 assms(1)]\<close>)
  qed
qed

lemma utf16_single:
  assumes "\<not> is_lead_surrogate c" "\<not> is_trail_surrogate c"
  shows "utf16_encode (unat c) = [c]" and "\<not> (0xD800 \<le> unat c \<and> unat c \<le> 0xDFFF)"
    and "unat c < 0x110000"
proof -
  have u: "unat c < 65536" by (rule unat_code_unit)
  then show "utf16_encode (unat c) = [c]" by (simp add: utf16_encode_def)
  show "\<not> (0xD800 \<le> unat c \<and> unat c \<le> 0xDFFF)"
    using assms unfolding is_lead_surrogate_def is_trail_surrogate_def by linarith
  show "unat c < 0x110000" using u by linarith
qed

lemma utf16_pair:
  assumes "is_lead_surrogate c" "is_trail_surrogate d"
  shows "utf16_encode (surrogate_pair c d) = [c, d]"
    and "\<not> (0xD800 \<le> surrogate_pair c d \<and> surrogate_pair c d \<le> 0xDFFF)"
proof -
  define x where "x = unat c - 0xD800"
  define y where "y = unat d - 0xDC00"
  have c: "unat c = 0xD800 + x" and x: "x < 1024"
    using assms(1) unfolding is_lead_surrogate_def x_def by linarith+
  have d: "unat d = 0xDC00 + y" and y: "y < 1024"
    using assms(2) unfolding is_trail_surrogate_def y_def by linarith+
  have sp: "surrogate_pair c d = 0x10000 + x * 1024 + y"
    by (simp add: surrogate_pair_def x_def y_def)
  have "(x * 1024 + y) div 1024 = x" "(x * 1024 + y) mod 1024 = y"
    using y by simp_all
  then have "utf16_encode (surrogate_pair c d) = [of_nat (unat c), of_nat (unat d)]"
    unfolding sp c d by (simp add: utf16_encode_def)
  then show "utf16_encode (surrogate_pair c d) = [c, d]" by simp
  show "\<not> (0xD800 \<le> surrogate_pair c d \<and> surrogate_pair c d \<le> 0xDFFF)"
    unfolding sp by linarith
qed

lemma decode_utf8_string:
  "well_formed s \<Longrightarrow> decodeURIComponent (escape (map of_nat (utf8_string s))) = Inr s"
proof (induction s rule: well_formed.induct)
  case 1
  then show ?case by (simp add: escape_def)
next
  case (2 c rest)
  show ?case
  proof (cases "is_lead_surrogate c")
    case True
    with 2(3) obtain d rest' where r: "rest = d # rest'" "is_trail_surrogate d" "well_formed rest'"
      by (auto split: list.splits)
    have ih: "decodeURIComponent (escape (map of_nat (utf8_string rest'))) = Inr rest'"
      using 2(1) [OF True r(1)] r by simp
    have "decodeURIComponent (escape (map of_nat (utf8_encode (surrogate_pair c d)))
             @ escape (map of_nat (utf8_string rest'))) = Inr ([c, d] @ rest')"
      using decode_scalar [OF surrogate_pair_range(2) [OF True r(2)] utf16_pair(2) [OF True r(2)]]
      by (simp add: ih utf16_pair(1) [OF True r(2)])
    then show ?thesis using True r by (simp add: escape_append)
  next
    case False
    then have nt: "\<not> is_trail_surrogate c" and wf: "well_formed rest" using 2(3) by simp_all
    have ih: "decodeURIComponent (escape (map of_nat (utf8_string rest))) = Inr rest"
      using 2(2) [OF False] wf by simp
    have "decodeURIComponent (escape (map of_nat (utf8_encode (unat c)))
             @ escape (map of_nat (utf8_string rest))) = Inr ([c] @ rest)"
      using decode_scalar [OF utf16_single(3) [OF False nt] utf16_single(2) [OF False nt]]
      by (simp add: ih utf16_single(1) [OF False nt])
    then show ?thesis using False by (simp add: escape_append)
  qed
qed

lemma decodeBase64_utf8:
  assumes "well_formed s"
  shows "decodeBase64 (base64_encode (utf8_string s)) = Inr s"
  by (simp add: decodeBase64_def atob_base64_encode [OF utf8_string_bytes [OF assms]]
      decode_utf8_string [OF assms])

subsection \<open>The round trip\<close>

text \<open>The string of any Unicode text is well formed.\<close>

lemma unat_of_nat_code_unit: "n < 0x10000 \<Longrightarrow> unat (of_nat n :: code_unit) = n"
  unfolding unat_of_nat by simp

lemma well_formed_scalar:
  assumes "scalar_value v"
  shows "well_formed (utf16_encode v @ rest) = well_formed rest"
proof (cases "v \<le> 0xFFFF")
  case True
  then have u: "unat (of_nat v :: code_unit) = v" by (intro unat_of_nat_code_unit) linarith
  have "\<not> is_lead_surrogate (of_nat v)" "\<not> is_trail_surrogate (of_nat v)"
    using assms True unfolding is_lead_surrogate_def is_trail_surrogate_def u scalar_value_def
    by linarith+
  then show ?thesis using True by (simp add: utf16_encode_def)
next
  case False
  define x where "x = (v - 0x10000) div 0x400"
  define y where "y = (v - 0x10000) mod 0x400"
  have "v - 0x10000 < 0x400 * 0x400" using assms unfolding scalar_value_def by linarith
  then have x: "x < 0x400" unfolding x_def by (simp only: div_less_iff_less_mult zero_less_numeral)
  have y: "y < 0x400" unfolding y_def by simp
  have ux: "unat (of_nat (0xD800 + x) :: code_unit) = 0xD800 + x"
    using x by (intro unat_of_nat_code_unit) linarith
  have uy: "unat (of_nat (0xDC00 + y) :: code_unit) = 0xDC00 + y"
    using y by (intro unat_of_nat_code_unit) linarith
  have l: "is_lead_surrogate (of_nat (0xD800 + x))"
    unfolding is_lead_surrogate_def ux using x by linarith
  have t: "is_trail_surrogate (of_nat (0xDC00 + y))"
    unfolding is_trail_surrogate_def uy using y by linarith
  have "utf16_encode v = [of_nat (0xD800 + x), of_nat (0xDC00 + y)]"
    using False unfolding utf16_encode_def x_def y_def by (simp only: if_False)
  then show ?thesis using l t by (simp del: of_nat_add of_nat_numeral)
qed

lemma unicode_text_well_formed: "list_all scalar_value vs \<Longrightarrow> well_formed (unicode_text vs)"
  by (induction vs) (simp_all add: unicode_text_def well_formed_scalar)

text \<open>
  Claim C4. For every string with no unpaired surrogate, which is every string of Unicode
  text (ASCII, multi-byte Unicode with or without surrogate pairs, or empty),
  \<open>encodeBase64\<close> returns a text, and \<open>decodeBase64\<close> of that text returns the string.
\<close>

theorem base64_round_trip:
  assumes "well_formed s"
  shows "\<exists>encoded. encodeBase64 s = Inr encoded \<and> decodeBase64 encoded = Inr s"
  using encodeBase64_utf8 [OF assms] decodeBase64_utf8 [OF assms] by simp

lemma sample_well_formed: "well_formed [0xE9, 0xD83D, 0xDE00]"
  by (simp add: is_lead_surrogate_def is_trail_surrogate_def)

lemma sample_bytes: "utf8_string [0xE9, 0xD83D, 0xDE00] = [0xC3, 0xA9, 0xF0, 0x9F, 0x98, 0x80]"
  by (simp add: is_lead_surrogate_def utf8_encode_def surrogate_pair_def)

lemma sample_text: "base64_encode [0xC3, 0xA9, 0xF0, 0x9F, 0x98, 0x80] = js ''w6nwn5iA''"
  by (simp add: base64_char_def base64_alphabet_def js_def)

lemma encode_sample: "encodeBase64 [0xE9, 0xD83D, 0xDE00] = Inr (js ''w6nwn5iA'')"
  using encodeBase64_utf8 [OF sample_well_formed] by (simp only: sample_bytes sample_text)

theorem base64_round_trip_witness:
  "well_formed [0xE9, 0xD83D, 0xDE00]
   \<and> encodeBase64 [0xE9, 0xD83D, 0xDE00] = Inr (js ''w6nwn5iA'')
   \<and> decodeBase64 (js ''w6nwn5iA'') = Inr [0xE9, 0xD83D, 0xDE00]"
proof -
  from base64_round_trip [OF sample_well_formed] obtain encoded where
    "encodeBase64 [0xE9, 0xD83D, 0xDE00] = Inr encoded"
    "decodeBase64 encoded = Inr [0xE9, 0xD83D, 0xDE00]"
    by blast
  then show ?thesis using sample_well_formed encode_sample by simp
qed

text \<open>
  A string that is one lead surrogate is not the string of any Unicode text: it is not
  well formed. On it \<open>encodeURIComponent\<close> raises, the fallback \<open>btoa\<close> raises as well, and
  \<open>encodeBase64\<close> returns no text.
\<close>

lemma encodeBase64_lone_surrogate:
  "\<not> well_formed [0xD800] \<and> encodeBase64 [0xD800] = Inl (InvalidCharacterError Btoa)"
  by (simp add: encodeBase64_def uri_unescaped_def is_lead_surrogate_def btoa_def js_def)

end
